theory Spec2Isabelle
  imports Main "HOL-Library.Sublist"
begin

section \<open>JavaScript values\<close>

text \<open>
  The client of \<^verbatim>\<open>src/engage-voice.js\<close> handles credential bundles, response bodies and
  rejection values as untyped JavaScript values. A value is a primitive or an object; an
  object is its reference together with its own enumerable properties in insertion order.
  The client never mutates an object after creating it, so the property list of a reference
  does not change. Numbers are integers (status codes and ids), and there are BigInts;
  functions, arrays, symbols, fractions and NaN are left out. A value is a finite tree, so
  an object that is reachable from itself is written unfolded: its reference occurs again
  below it, and that occurrence stands for the object above.
\<close>

datatype jsval =
    JUndefined
  | JNull
  | JBool bool
  | JNum int
  | JBigInt int
  | JStr string
  | JObj nat "(string \<times> jsval) list"

type_synonym props = "(string \<times> jsval) list"

text \<open>\<^verbatim>\<open>if (v)\<close>, \<^verbatim>\<open>v || d\<close>, \<^verbatim>\<open>!v\<close>: the truthiness of a value.\<close>

fun truthy :: "jsval \<Rightarrow> bool" where
  "truthy JUndefined = False"
| "truthy JNull = False"
| "truthy (JBool b) = b"
| "truthy (JNum n) = (n \<noteq> 0)"
| "truthy (JBigInt n) = (n \<noteq> 0)"
| "truthy (JStr s) = (s \<noteq> [])"
| "truthy (JObj r ps) = True"

fun nullish :: "jsval \<Rightarrow> bool" where
  "nullish JUndefined = True"
| "nullish JNull = True"
| "nullish v = False"

text \<open>
  \<^verbatim>\<open>a === b\<close>: primitives compare by value, objects by reference (two objects with the
  same properties but different references are different).
\<close>

fun strict_eq :: "jsval \<Rightarrow> jsval \<Rightarrow> bool" where
  "strict_eq (JObj r ps) (JObj r' ps') = (r = r')"
| "strict_eq a b = (a = b)"

text \<open>Decimal digits of a natural number, most significant first.\<close>

fun digits :: "nat \<Rightarrow> string" where
  "digits n = (if n < 10 then [char_of (48 + n)]
               else digits (n div 10) @ [char_of (48 + n mod 10)])"

declare digits.simps [simp del]

text \<open>
  \<^verbatim>\<open>String(v)\<close>, which is also what a template literal \<^verbatim>\<open>`${v}`\<close> and \<^verbatim>\<open>'s' + v\<close> put
  into the string for the values modelled here.
\<close>

fun to_string :: "jsval \<Rightarrow> string" where
  "to_string JUndefined = ''undefined''"
| "to_string JNull = ''null''"
| "to_string (JBool b) = (if b then ''true'' else ''false'')"
| "to_string (JNum n) = (if n < 0 then CHR ''-'' # digits (nat (- n)) else digits (nat n))"
| "to_string (JBigInt n) = (if n < 0 then CHR ''-'' # digits (nat (- n)) else digits (nat n))"
| "to_string (JStr s) = s"
| "to_string (JObj r ps) = ''[object Object]''"

section \<open>Errors\<close>

text \<open>
  What a call can throw (or a promise reject with): the \<^verbatim>\<open>HTTPError\<close> of lines 15--26 with
  its four fields (its \<^verbatim>\<open>message\<close> is computed from the four, see \<open>message\<close> below), the
  \<^verbatim>\<open>TypeError\<close> of a property read on \<^verbatim>\<open>undefined\<close> or \<^verbatim>\<open>null\<close> and of
  \<^verbatim>\<open>JSON.stringify\<close>, and any other JavaScript value thrown by a collaborator, passed on as
  it is.
\<close>

datatype thrown =
    HTTPError (status: jsval) (statusText: jsval) (data: jsval) (config: jsval)
  | TypeError
  | Thrown jsval

text \<open>\<^verbatim>\<open>v.k\<close>: a property read. It throws on \<^verbatim>\<open>undefined\<close> and \<^verbatim>\<open>null\<close>; a
  primitive has none of the properties the client reads.\<close>

definition lookup :: "(string \<times> jsval) list \<Rightarrow> string \<Rightarrow> jsval" where
  "lookup ps k = (case map_of ps k of None \<Rightarrow> JUndefined | Some v \<Rightarrow> v)"

fun get_prop :: "jsval \<Rightarrow> string \<Rightarrow> thrown + jsval" where
  "get_prop JUndefined k = Inl TypeError"
| "get_prop JNull k = Inl TypeError"
| "get_prop (JObj r ps) k = Inr (lookup ps k)"
| "get_prop v k = Inr JUndefined"

text \<open>Writing a property: an existing key keeps its place, a new key goes last.\<close>

fun set_prop :: "props \<Rightarrow> string \<Rightarrow> jsval \<Rightarrow> props" where
  "set_prop [] k v = [(k, v)]"
| "set_prop ((k', v') # ps) k v = (if k' = k then (k, v) # ps else (k', v') # set_prop ps k v)"

text \<open>\<^verbatim>\<open>{...a, ...b}\<close>: the properties of \<^verbatim>\<open>b\<close> written over those of \<^verbatim>\<open>a\<close>, in order.\<close>

fun assign :: "props \<Rightarrow> props \<Rightarrow> props" where
  "assign ps [] = ps"
| "assign ps ((k, v) # qs) = assign (set_prop ps k v) qs"

text \<open>The own enumerable properties a spread \<^verbatim>\<open>...v\<close> copies: those of an object, the
  indexed characters of a string, none of another primitive.\<close>

fun index_props :: "nat \<Rightarrow> string \<Rightarrow> props" where
  "index_props i [] = []"
| "index_props i (c # cs) = (digits i, JStr [c]) # index_props (Suc i) cs"

fun own_props :: "jsval \<Rightarrow> props" where
  "own_props (JObj r ps) = ps"
| "own_props (JStr s) = index_props 0 s"
| "own_props v = []"

section \<open>The client and its state\<close>

text \<open>The constants of lines 8--13.\<close>

definition SERVER :: string where
  "SERVER = ''https://engage.ringcentral.com''"

definition LEGACY_SERVERS :: "string list" where
  "LEGACY_SERVERS = [''https://portal.vacd.biz'', ''https://portal.virtualacd.biz'']"

definition RINGCENTRAL_SERVER :: string where
  "RINGCENTRAL_SERVER = ''https://platform.ringcentral.com''"

text \<open>
  The fields the constructor (lines 29--61) sets once. \<^verbatim>\<open>version\<close> is
  \<^verbatim>\<open>process.env.version\<close>, a string or \<^verbatim>\<open>undefined\<close>.
\<close>

record client =
  clientId :: jsval
  clientSecret :: jsval
  server :: string
  rcServer :: string
  apiPrefix :: string
  isLegacy :: bool
  version :: jsval

definition isLegacyServer :: "string \<Rightarrow> bool" where
  "isLegacyServer s = (s \<in> set LEGACY_SERVERS)"

text \<open>The constructor; an option left out (\<open>None\<close>) takes its default.\<close>

definition new_client ::
  "jsval \<Rightarrow> jsval \<Rightarrow> string option \<Rightarrow> string option \<Rightarrow> string option \<Rightarrow> jsval \<Rightarrow> client" where
  "new_client cid secret srv rcsrv pfx ver =
     (let s = (case srv of None \<Rightarrow> SERVER | Some x \<Rightarrow> x) in
      \<lparr> clientId = cid, clientSecret = secret, server = s,
        rcServer = (case rcsrv of None \<Rightarrow> RINGCENTRAL_SERVER | Some x \<Rightarrow> x),
        apiPrefix = (case pfx of None \<Rightarrow> ''voice'' | Some x \<Rightarrow> x),
        isLegacy = isLegacyServer s, version = ver \<rparr>)"

text \<open>A request configuration as the client builds it and the transport receives it.
  \<open>meth\<close> is the \<^verbatim>\<open>method\<close> and \<open>body\<close> the \<^verbatim>\<open>data\<close> of the source (\<open>data\<close> names
  the field of \<^verbatim>\<open>HTTPError\<close> here). The method and the URL are strings, a body left out is
  \<^verbatim>\<open>undefined\<close>, no headers are the empty list. Other fields of a configuration pass
  through the client untouched and are not modelled.\<close>

record request_config =
  meth :: string
  url :: string
  body :: jsval
  headers :: props

text \<open>
  The mutable state: the stored bundle \<^verbatim>\<open>this._token\<close> (\<^verbatim>\<open>undefined\<close> at first), the
  notifications emitted so far, the requests handed to the transport so far, the session
  data of the identity platform's SDK, and the next unused object reference. The listeners
  of \<^verbatim>\<open>tokenChanged\<close> are outside the client; what they are sent is recorded.
\<close>

record world =
  token_store :: jsval
  emitted :: "(string \<times> jsval) list"
  sent :: "request_config list"
  rc_session :: jsval
  next_ref :: nat

section \<open>Token store (lines 69--78)\<close>

text \<open>
  \<^verbatim>\<open>token(_token)\<close> takes its argument list: with no argument it reads the store; with one
  it compares by \<^verbatim>\<open>!==\<close>, stores the argument, and emits \<^verbatim>\<open>tokenChanged\<close> when they
  differed. It returns \<^verbatim>\<open>undefined\<close> after a write.
\<close>

fun token :: "jsval list \<Rightarrow> world \<Rightarrow> jsval \<times> world" where
  "token [] w = (token_store w, w)"
| "token (t # rest) w =
     (let tokenChanged = \<not> strict_eq (token_store w) t;
          w1 = w\<lparr>token_store := t\<rparr>
      in if tokenChanged
         then (JUndefined, w1\<lparr>emitted := emitted w1 @ [(''tokenChanged'', t)]\<rparr>)
         else (JUndefined, w1))"

text \<open>A sequence of writes \<^verbatim>\<open>token(b1); token(b2); ...\<close>\<close>

fun token_calls :: "jsval list \<Rightarrow> world \<Rightarrow> world" where
  "token_calls [] w = w"
| "token_calls (b # bs) w = token_calls bs (snd (token [b] w))"

text \<open>The bundles of a sequence of writes that differ from the bundle stored before them.\<close>

fun transitions :: "jsval \<Rightarrow> jsval list \<Rightarrow> jsval list" where
  "transitions cur [] = []"
| "transitions cur (b # bs) = (if strict_eq cur b then [] else [b]) @ transitions b bs"

section \<open>Collaborators\<close>

text \<open>
  The HTTP transport (\<^verbatim>\<open>axios\<close>) and the identity platform's SDK are outside the client.
  The transport answers a request, given the requests it has received before: \<open>Inr res\<close>
  is a promise resolved with the response \<open>res\<close>, \<open>Inl e\<close> one rejected with \<open>e\<close>.
  \<^verbatim>\<open>rc.login(...args)\<close> takes the arguments and the session data and gives the new session
  data or throws; \<^verbatim>\<open>rc.platform().auth().data()\<close> reads the session data (\<open>rc_session\<close>).
\<close>

record collaborators =
  transport :: "request_config list \<Rightarrow> request_config \<Rightarrow> jsval + jsval"
  rc_login :: "jsval list \<Rightarrow> jsval \<Rightarrow> thrown + jsval"

section \<open>The HTTPError constructor (lines 15--26)\<close>

text \<open>
  The constructor builds the message with \<^verbatim>\<open>JSON.stringify(data, null, 2)\<close> and
  \<^verbatim>\<open>JSON.stringify(config, null, 2)\<close> before it sets a field. \<^verbatim>\<open>JSON.stringify\<close> is the
  language's own (ECMAScript, JSON.stringify with no replacer and a gap of two blanks),
  written out for the values above.

  \<^verbatim>\<open>QuoteJSONString\<close>: the string between double quotes, with the double quote, the
  backslash and the control characters escaped.
\<close>

definition hex_digit :: "nat \<Rightarrow> char" where
  "hex_digit n = ''0123456789abcdef'' ! n"

definition quote_char :: "char \<Rightarrow> string" where
  "quote_char c =
     (if c = CHR 0x08 then [CHR 0x5C, CHR ''b'']
      else if c = CHR 0x09 then [CHR 0x5C, CHR ''t'']
      else if c = CHR 0x0A then [CHR 0x5C, CHR ''n'']
      else if c = CHR 0x0C then [CHR 0x5C, CHR ''f'']
      else if c = CHR 0x0D then [CHR 0x5C, CHR ''r'']
      else if c = CHR 0x22 then [CHR 0x5C, CHR 0x22]
      else if c = CHR 0x5C then [CHR 0x5C, CHR 0x5C]
      else if of_char c < (32 :: nat)
        then [CHR 0x5C, CHR ''u'', CHR ''0'', CHR ''0'',
              hex_digit (of_char c div 16), hex_digit (of_char c mod 16)]
      else [c])"

definition QuoteJSONString :: "string \<Rightarrow> string" where
  "QuoteJSONString s = CHR 0x22 # concat (map quote_char s) @ [CHR 0x22]"

text \<open>The strings \<open>xs\<close> with \<open>sep\<close> between them.\<close>

fun join :: "string \<Rightarrow> string list \<Rightarrow> string" where
  "join sep [] = []"
| "join sep [x] = x"
| "join sep (x # y # ys) = x @ sep @ join sep (y # ys)"

text \<open>The loop over the properties of an object, given what each gives: the first throw,
  or the members of all.\<close>

fun each_property :: "(thrown + string list) list \<Rightarrow> thrown + string list" where
  "each_property [] = Inr []"
| "each_property (Inl t # rs) = Inl t"
| "each_property (Inr m # rs) =
     (case each_property rs of Inl t \<Rightarrow> Inl t | Inr partial \<Rightarrow> Inr (m @ partial))"

text \<open>One member \<^verbatim>\<open>"key": text\<close> of an object; a property whose value has no JSON text
  (\<^verbatim>\<open>undefined\<close>) is left out.\<close>

definition json_member :: "string \<Rightarrow> thrown + string option \<Rightarrow> thrown + string list" where
  "json_member k r =
     (case r of
        Inl t \<Rightarrow> Inl t
      | Inr None \<Rightarrow> Inr []
      | Inr (Some s) \<Rightarrow> Inr [QuoteJSONString k @ '': '' @ s])"

text \<open>The members between braces, each on a line of its own, indented two blanks more
  than the line of the closing brace; \<^verbatim>\<open>{}\<close> when there is none.\<close>

definition braces :: "string \<Rightarrow> string list \<Rightarrow> string" where
  "braces stepback partial =
     (if partial = [] then ''{}''
      else (let indent = stepback @ ''  '' in
            ''{'' @ [CHR 0x0A] @ indent @ join ('','' @ [CHR 0x0A] @ indent) partial
              @ [CHR 0x0A] @ stepback @ ''}''))"

text \<open>
  \<^verbatim>\<open>SerializeJSONProperty\<close> with \<^verbatim>\<open>SerializeJSONObject\<close>: the JSON text of a value, none
  for \<^verbatim>\<open>undefined\<close>. \<open>stack\<close> holds the references of the objects being written; an
  object found on it is a cycle and throws a \<^verbatim>\<open>TypeError\<close>, and so does a BigInt. The
  properties are written in the order of the property list, each key once. No value has
  a \<^verbatim>\<open>toJSON\<close> method (functions are left out).
\<close>

fun SerializeJSONProperty :: "nat list \<Rightarrow> string \<Rightarrow> jsval \<Rightarrow> thrown + string option" where
  "SerializeJSONProperty stack indent JUndefined = Inr None"
| "SerializeJSONProperty stack indent JNull = Inr (Some ''null'')"
| "SerializeJSONProperty stack indent (JBool b) = Inr (Some (if b then ''true'' else ''false''))"
| "SerializeJSONProperty stack indent (JNum n) = Inr (Some (to_string (JNum n)))"
| "SerializeJSONProperty stack indent (JBigInt n) = Inl TypeError"
| "SerializeJSONProperty stack indent (JStr s) = Inr (Some (QuoteJSONString s))"
| "SerializeJSONProperty stack indent (JObj r ps) =
     (if r \<in> set stack then Inl TypeError
      else case each_property
                  (map (\<lambda>(k, v). json_member k
                          (SerializeJSONProperty (r # stack) (indent @ ''  '') v)) ps) of
             Inl t \<Rightarrow> Inl t
           | Inr partial \<Rightarrow> Inr (Some (braces indent partial)))"

text \<open>\<^verbatim>\<open>JSON.stringify(v, null, 2)\<close>: a string, or \<^verbatim>\<open>undefined\<close>, or a throw.\<close>

definition JSON_stringify :: "jsval \<Rightarrow> thrown + jsval" where
  "JSON_stringify v =
     (case SerializeJSONProperty [] [] v of
        Inl t \<Rightarrow> Inl t
      | Inr None \<Rightarrow> Inr JUndefined
      | Inr (Some s) \<Rightarrow> Inr (JStr s))"

text \<open>The template literal of lines 17--20, the argument of \<^verbatim>\<open>super\<close>.\<close>

definition message :: "jsval \<Rightarrow> jsval \<Rightarrow> jsval \<Rightarrow> jsval \<Rightarrow> thrown + string" where
  "message st stt d cfg =
     (case JSON_stringify d of Inl t \<Rightarrow> Inl t | Inr dj \<Rightarrow>
      case JSON_stringify cfg of Inl t \<Rightarrow> Inl t | Inr cj \<Rightarrow>
        Inr (''status: '' @ to_string st @ [CHR 0x0A]
             @ ''statusText: '' @ to_string stt @ [CHR 0x0A]
             @ ''data: '' @ to_string dj @ [CHR 0x0A]
             @ ''config: '' @ to_string cj))"

text \<open>\<^verbatim>\<open>new HTTPError(status, statusText, data, config)\<close>: the error with its four fields,
  unless building the message throws.\<close>

definition new_HTTPError :: "jsval \<Rightarrow> jsval \<Rightarrow> jsval \<Rightarrow> jsval \<Rightarrow> thrown" where
  "new_HTTPError st stt d cfg =
     (case message st stt d cfg of
        Inl t \<Rightarrow> t
      | Inr m \<Rightarrow> HTTPError st stt d cfg)"

text \<open>
  The values \<^verbatim>\<open>JSON.stringify\<close> returns for (see \<open>SerializeJSONProperty_returns\<close>): those
  that hold no BigInt and no object below itself.
\<close>

fun serialisable :: "nat list \<Rightarrow> jsval \<Rightarrow> bool" where
  "serialisable stack (JBigInt n) = False"
| "serialisable stack (JObj r ps) =
     (r \<notin> set stack \<and> (\<forall>(k, v) \<in> set ps. serialisable (r # stack) v))"
| "serialisable stack v = True"

section \<open>Error classifier (lines 50--60)\<close>

text \<open>The \<^verbatim>\<open>catch (e)\<close> block: what is thrown for a rejection value \<open>e\<close>.\<close>

definition classify :: "jsval \<Rightarrow> thrown" where
  "classify e =
     (case get_prop e ''response'' of
        Inl t \<Rightarrow> t
      | Inr r \<Rightarrow>
          if truthy r then
            (case get_prop r ''status'' of Inl t \<Rightarrow> t | Inr a \<Rightarrow>
             case get_prop r ''statusText'' of Inl t \<Rightarrow> t | Inr b \<Rightarrow>
             case get_prop r ''data'' of Inl t \<Rightarrow> t | Inr c \<Rightarrow>
             case get_prop r ''config'' of Inl t \<Rightarrow> t | Inr d \<Rightarrow>
               new_HTTPError a b c d)
          else Thrown e)"

text \<open>The wrapped \<^verbatim>\<open>this._axios.request\<close>: one request handed to the transport, a
  rejection classified.\<close>

definition axios_request ::
  "collaborators \<Rightarrow> request_config \<Rightarrow> world \<Rightarrow> (thrown + jsval) \<times> world" where
  "axios_request co cfg w =
     (let w1 = w\<lparr>sent := sent w @ [cfg]\<rparr> in
      case transport co (sent w) cfg of
        Inr res \<Rightarrow> (Inr res, w1)
      | Inl e \<Rightarrow> (Inl (classify e), w1))"

section \<open>Header injection (lines 180--209)\<close>

definition bearerAuthorizationHeader :: "world \<Rightarrow> thrown + props" where
  "bearerAuthorizationHeader w =
     (case (if truthy (token_store w) then get_prop (token_store w) ''accessToken''
            else Inr (JStr [])) of
        Inl t \<Rightarrow> Inl t
      | Inr accessToken \<Rightarrow> Inr [(''Authorization'', JStr (''Bearer '' @ to_string accessToken))])"

definition legacyHeader :: "world \<Rightarrow> thrown + props" where
  "legacyHeader w =
     (case (if truthy (token_store w) then get_prop (token_store w) ''apiToken''
            else Inr (JStr [])) of
        Inl t \<Rightarrow> Inl t
      | Inr accessToken \<Rightarrow> Inr [(''X-Auth-Token'', accessToken)])"

text \<open>The \<^verbatim>\<open>authHeaders\<close> of \<^verbatim>\<open>_patchHeaders\<close>, chosen by \<^verbatim>\<open>this.isLegacy\<close>.\<close>

definition authHeaders :: "client \<Rightarrow> world \<Rightarrow> thrown + props" where
  "authHeaders c w = (if isLegacy c then legacyHeader w else bearerAuthorizationHeader w)"

definition patchHeaders :: "client \<Rightarrow> world \<Rightarrow> props \<Rightarrow> thrown + props" where
  "patchHeaders c w hs =
     (let userAgentHeader = JStr (''ringcentral-engage-voice-js/v'' @ to_string (version c)) in
      case authHeaders c w of
        Inl t \<Rightarrow> Inl t
      | Inr auth \<Rightarrow>
          Inr (assign
                 (set_prop (set_prop (assign [] auth) ''X-User-Agent'' userAgentHeader)
                    ''RC-User-Agent'' userAgentHeader)
                 hs))"

text \<open>
  The header formulas as the specification writes them, with \<^verbatim>\<open>?.\<close> and \<^verbatim>\<open>??\<close>:
  \<^verbatim>\<open>{'X-Auth-Token': bundle?.apiToken ?? ''}\<close> and
  \<^verbatim>\<open>{'Authorization': 'Bearer ' + (bundle?.accessToken ?? '')}\<close>.
\<close>

definition optional_chain :: "jsval \<Rightarrow> string \<Rightarrow> jsval" where
  "optional_chain b k = (case get_prop b k of Inl t \<Rightarrow> JUndefined | Inr v \<Rightarrow> v)"

definition coalesce :: "jsval \<Rightarrow> jsval \<Rightarrow> jsval" where
  "coalesce v d = (if nullish v then d else v)"

definition spec_auth_headers :: "bool \<Rightarrow> jsval \<Rightarrow> props" where
  "spec_auth_headers legacy b =
     (if legacy then [(''X-Auth-Token'', coalesce (optional_chain b ''apiToken'') (JStr []))]
      else [(''Authorization'',
             JStr (''Bearer '' @ to_string (coalesce (optional_chain b ''accessToken'') (JStr []))))])"

section \<open>Authentication engine (lines 80--84, 107--149, 158--178)\<close>

definition form_headers :: props where
  "form_headers = [(''Content-Type'', JStr ''application/x-www-form-urlencoded'')]"

text \<open>\<^verbatim>\<open>getToken(refreshToken)\<close>: the modern token exchange.\<close>

definition getToken ::
  "client \<Rightarrow> collaborators \<Rightarrow> jsval \<Rightarrow> world \<Rightarrow> (thrown + jsval) \<times> world" where
  "getToken c co refreshToken w =
     (let url0 = server c @ ''/api/auth/login/rc/accesstoken?includeRefresh=true'';
          (tk, w0) =
            (if \<not> truthy refreshToken then
               (let d = rc_session w;
                    (t0, w') = (if truthy d then (d, w)
                                else (JObj (next_ref w) [], w\<lparr>next_ref := Suc (next_ref w)\<rparr>))
                in (case get_prop t0 ''access_token'' of
                      Inl t \<Rightarrow> Inl t
                    | Inr a \<Rightarrow> Inr (if truthy a then a else JStr []), w'))
             else (Inr refreshToken, w))
      in case tk of
           Inl t \<Rightarrow> (Inl t, w0)
         | Inr tok \<Rightarrow>
             (let body0 = (if truthy refreshToken
                           then ''refreshToken='' @ to_string tok @ ''&rcTokenType=Bearer''
                           else ''rcAccessToken='' @ to_string tok @ ''&rcTokenType=Bearer'')
              in case axios_request co
                        \<lparr>meth = ''post'', url = url0, body = JStr body0, headers = form_headers\<rparr> w0 of
                   (Inl t, w1) \<Rightarrow> (Inl t, w1)
                 | (Inr res, w1) \<Rightarrow>
                     (case get_prop res ''data'' of
                        Inl t \<Rightarrow> (Inl t, w1)
                      | Inr r \<Rightarrow> (Inr JUndefined, snd (token [r] w1)))))"

text \<open>\<^verbatim>\<open>refresh()\<close> reads \<^verbatim>\<open>this._token.refreshToken\<close> and calls \<^verbatim>\<open>getToken\<close>.\<close>

definition refresh :: "client \<Rightarrow> collaborators \<Rightarrow> world \<Rightarrow> (thrown + jsval) \<times> world" where
  "refresh c co w =
     (case get_prop (token_store w) ''refreshToken'' of
        Inl t \<Rightarrow> (Inl t, w)
      | Inr rt \<Rightarrow> getToken c co rt w)"

text \<open>The access token of the identity platform's session as the specification words it:
  the session's \<^verbatim>\<open>access_token\<close>, or the empty string if the session holds none.\<close>

definition session_access_token :: "jsval \<Rightarrow> string" where
  "session_access_token d =
     (case get_prop d ''access_token'' of
        Inl t \<Rightarrow> []
      | Inr a \<Rightarrow> if truthy a then to_string a else [])"

text \<open>The two requests \<^verbatim>\<open>getLegacyToken\<close> builds.\<close>

definition login_request :: "client \<Rightarrow> jsval \<Rightarrow> jsval \<Rightarrow> request_config" where
  "login_request c username password =
     \<lparr>meth = ''post'', url = server c @ ''/api/v1/auth/login'',
      body = JStr (''username='' @ to_string username @ ''&password='' @ to_string password),
      headers = form_headers\<rparr>"

definition exchange_request :: "client \<Rightarrow> jsval \<Rightarrow> request_config" where
  "exchange_request c authToken =
     \<lparr>meth = ''post'', url = server c @ ''/api/v1/admin/token'', body = JUndefined,
      headers = [(''X-Auth-Token'', if truthy authToken then authToken else JStr [])]\<rparr>"

text \<open>\<^verbatim>\<open>getLegacyToken({username, password})\<close>: login, token exchange, then the merged
  bundle, a new object, is stored.\<close>

definition getLegacyToken ::
  "client \<Rightarrow> collaborators \<Rightarrow> jsval \<Rightarrow> world \<Rightarrow> (thrown + jsval) \<times> world" where
  "getLegacyToken c co arg w =
     (case get_prop arg ''username'' of Inl t \<Rightarrow> (Inl t, w) | Inr username \<Rightarrow>
      case get_prop arg ''password'' of Inl t \<Rightarrow> (Inl t, w) | Inr password \<Rightarrow>
      case axios_request co (login_request c username password) w of
        (Inl t, w1) \<Rightarrow> (Inl t, w1)
      | (Inr res, w1) \<Rightarrow>
      case get_prop res ''data'' of Inl t \<Rightarrow> (Inl t, w1) | Inr r \<Rightarrow>
      case get_prop r ''authToken'' of Inl t \<Rightarrow> (Inl t, w1) | Inr authToken \<Rightarrow>
      case axios_request co (exchange_request c authToken) w1 of
        (Inl t, w2) \<Rightarrow> (Inl t, w2)
      | (Inr res1, w2) \<Rightarrow>
      case get_prop res1 ''data'' of Inl t \<Rightarrow> (Inl t, w2) | Inr r1 \<Rightarrow>
        (let bundle = JObj (next_ref w2) (set_prop (assign [] (own_props r)) ''apiToken'' r1);
             w3 = w2\<lparr>next_ref := Suc (next_ref w2)\<rparr>
         in (Inr JUndefined, snd (token [bundle] w3))))"

definition first_arg :: "jsval list \<Rightarrow> jsval" where
  "first_arg args = (case args of [] \<Rightarrow> JUndefined | a # rest \<Rightarrow> a)"

definition legacyAuthorize ::
  "client \<Rightarrow> collaborators \<Rightarrow> jsval list \<Rightarrow> world \<Rightarrow> (thrown + jsval) \<times> world" where
  "legacyAuthorize c co args w = getLegacyToken c co (first_arg args) w"

definition authorize ::
  "client \<Rightarrow> collaborators \<Rightarrow> jsval list \<Rightarrow> world \<Rightarrow> (thrown + jsval) \<times> world" where
  "authorize c co args w =
     (if isLegacy c then legacyAuthorize c co args w
      else (case rc_login co args (rc_session w) of
              Inl t \<Rightarrow> (Inl t, w)
            | Inr s \<Rightarrow> getToken c co JUndefined (w\<lparr>rc_session := s\<rparr>)))"

section \<open>The URI library\<close>

text \<open>
  Modelled from the spec: the resolver of its section 4.3 joins the server, the prefix and
  the request path into ``a single normalized path with no duplicated separators''. The
  dispatcher does this with the \<^verbatim>\<open>urijs\<close> package (\<^verbatim>\<open>URI\<close>, \<^verbatim>\<open>hostname\<close>, \<^verbatim>\<open>joinPaths\<close>,
  \<^verbatim>\<open>path\<close>, \<^verbatim>\<open>toString\<close>), which is not under \<^verbatim>\<open>src/\<close>. The definitions below follow the
  package's own steps (\<^verbatim>\<open>URI.parse\<close>, \<^verbatim>\<open>URI.build\<close>, \<^verbatim>\<open>segment\<close>, \<^verbatim>\<open>URI.joinPaths\<close>) on plain
  URLs, the ones on which the package neither percent-encodes nor normalises anything and
  on which its versions agree:
  \<^item> a relative reference \<^verbatim>\<open>path[?query][#fragment]\<close>, the path not starting with
    \<^verbatim>\<open>//\<close>;
  \<^item> an absolute URL \<^verbatim>\<open>[scheme:]//host[:port][/path][?query][#fragment]\<close>;
  \<^item> path characters are letters, digits, \<^verbatim>\<open>- . _ ~\<close> and the separator \<^verbatim>\<open>/\<close>; a host has
    no separator; a query or fragment may also hold \<^verbatim>\<open>=\<close> and \<^verbatim>\<open>&\<close>; a port is a decimal
    number from 1 to 65535.
  On any other string \<open>parse_uri\<close> is \<open>None\<close>: the model says nothing about it
  (user information, IPv6 hosts, backslashes, white space, percent escapes, \<^verbatim>\<open>urn:\<close> paths).
  Likewise \<open>joinPaths\<close> is \<open>None\<close> on the segments \<^verbatim>\<open>.\<close> and \<^verbatim>\<open>..\<close>, which the package
  resolves.
\<close>

record uri =
  protocol :: "string option"
  hostname :: "string option"
  port :: "string option"
  path :: string
  query :: "string option"
  fragment :: "string option"

definition is_alpha :: "char \<Rightarrow> bool" where
  "is_alpha c = (let n = (of_char c :: nat) in (65 \<le> n \<and> n \<le> 90) \<or> (97 \<le> n \<and> n \<le> 122))"

definition is_digit :: "char \<Rightarrow> bool" where
  "is_digit c = (let n = (of_char c :: nat) in 48 \<le> n \<and> n \<le> 57)"

definition unreserved :: "char \<Rightarrow> bool" where
  "unreserved c = (is_alpha c \<or> is_digit c \<or> c = CHR ''-'' \<or> c = CHR ''.'' \<or> c = CHR ''_''
                   \<or> c = CHR ''~'')"

definition path_char :: "char \<Rightarrow> bool" where
  "path_char c = (unreserved c \<or> c = CHR ''/'')"

definition query_char :: "char \<Rightarrow> bool" where
  "query_char c = (path_char c \<or> c = CHR ''='' \<or> c = CHR ''&'')"

text \<open>\<^verbatim>\<open>/^[a-z][a-z0-9.+-]*$/i\<close> on the characters above.\<close>

definition valid_protocol :: "string \<Rightarrow> bool" where
  "valid_protocol p =
     (case p of [] \<Rightarrow> False
      | c # cs \<Rightarrow> is_alpha c
          \<and> list_all (\<lambda>x. is_alpha x \<or> is_digit x \<or> x = CHR ''.'' \<or> x = CHR ''-'') cs)"

fun decimal :: "nat \<Rightarrow> string \<Rightarrow> nat" where
  "decimal acc [] = acc"
| "decimal acc (c # cs) = decimal (10 * acc + (of_char c - 48)) cs"

definition valid_port :: "string \<Rightarrow> bool" where
  "valid_port ds = (ds \<noteq> [] \<and> list_all is_digit ds \<and> 0 < decimal 0 ds \<and> decimal 0 ds < 65536)"

text \<open>\<^verbatim>\<open>s.substring(0, pos)\<close> and \<^verbatim>\<open>s.substring(pos + 1)\<close> for the first \<open>d\<close> in \<open>s\<close>.\<close>

definition before :: "char \<Rightarrow> string \<Rightarrow> string" where
  "before d s = takeWhile (\<lambda>c. c \<noteq> d) s"

definition after :: "char \<Rightarrow> string \<Rightarrow> string" where
  "after d s = drop 1 (dropWhile (\<lambda>c. c \<noteq> d) s)"

text \<open>\<^verbatim>\<open>x || null\<close> for a string.\<close>

definition or_null :: "string \<Rightarrow> string option" where
  "or_null s = (if s = [] then None else Some s)"

text \<open>\<^verbatim>\<open>URI.parseAuthority\<close> without user information: host, port and the path left.\<close>

definition parse_authority :: "string \<Rightarrow> (string \<times> string option \<times> string) option" where
  "parse_authority s =
     (let auth = before CHR ''/'' s;
          rest = dropWhile (\<lambda>c. c \<noteq> CHR ''/'') s;
          h = before CHR '':'' auth;
          p = after CHR '':'' auth
      in if h = [] \<or> \<not> list_all unreserved h then None
         else if p \<noteq> [] \<and> \<not> valid_port p then None
         else Some (h, or_null p, if rest = [] then ''/'' else rest))"

text \<open>\<^verbatim>\<open>URI.parse\<close> after the fragment \<open>f\<close> and the query \<open>q\<close> have been cut off:
  scheme, authority, path.\<close>

definition parse_hier :: "string \<Rightarrow> string option \<Rightarrow> string option \<Rightarrow> uri option" where
  "parse_hier s q f =
     (if take 2 s = ''//'' then
        (case parse_authority (drop 2 s) of
           None \<Rightarrow> None
         | Some (h, p, pa) \<Rightarrow>
             if list_all path_char pa
             then Some \<lparr>protocol = None, hostname = Some h, port = p, path = pa,
                        query = q, fragment = f\<rparr>
             else None)
      else if CHR '':'' \<in> set s then
        (if valid_protocol (before CHR '':'' s) \<and> take 2 (after CHR '':'' s) = ''//'' then
           (case parse_authority (drop 2 (after CHR '':'' s)) of
              None \<Rightarrow> None
            | Some (h, p, pa) \<Rightarrow>
                if list_all path_char pa
                then Some \<lparr>protocol = Some (before CHR '':'' s), hostname = Some h, port = p,
                           path = pa, query = q, fragment = f\<rparr>
                else None)
         else None)
      else if list_all path_char s
      then Some \<lparr>protocol = None, hostname = None, port = None, path = s,
                 query = q, fragment = f\<rparr>
      else None)"

text \<open>\<^verbatim>\<open>URI.parse\<close>: the fragment is what follows the first \<^verbatim>\<open>#\<close>, the query what
  follows the first \<^verbatim>\<open>?\<close> before it.\<close>

definition parse_uri :: "string \<Rightarrow> uri option" where
  "parse_uri s =
     (let s1 = before CHR ''#'' s in
      if \<not> list_all query_char (after CHR ''#'' s) \<or> \<not> list_all query_char (after CHR ''?'' s1)
      then None
      else parse_hier (before CHR ''?'' s1) (or_null (after CHR ''?'' s1))
             (or_null (after CHR ''#'' s)))"

text \<open>\<^verbatim>\<open>URI.build\<close>, which \<^verbatim>\<open>toString()\<close> returns.\<close>

definition build :: "uri \<Rightarrow> string" where
  "build u =
     (let t = (case protocol u of None \<Rightarrow> [] | Some p \<Rightarrow> if p = [] then [] else p @ '':'');
          host = (case hostname u of None \<Rightarrow> [] | Some h \<Rightarrow> h);
          requireAbsolutePath = (t \<noteq> [] \<or> host \<noteq> []);
          authority = (if host = [] then []
                       else host @ (case port u of None \<Rightarrow> []
                                    | Some p \<Rightarrow> if p = [] then [] else CHR '':'' # p))
      in t @ (if requireAbsolutePath then ''//'' else []) @ authority
         @ (if take 1 (path u) \<noteq> ''/'' \<and> requireAbsolutePath then ''/'' else []) @ path u
         @ (case query u of None \<Rightarrow> [] | Some q \<Rightarrow> if q = [] then [] else CHR ''?'' # q)
         @ (case fragment u of None \<Rightarrow> [] | Some f \<Rightarrow> if f = [] then [] else CHR ''#'' # f))"

text \<open>The accessors \<^verbatim>\<open>hostname()\<close> and \<^verbatim>\<open>path()\<close>.\<close>

definition uri_hostname :: "uri \<Rightarrow> string" where
  "uri_hostname u = (case hostname u of None \<Rightarrow> [] | Some h \<Rightarrow> h)"

definition uri_path :: "uri \<Rightarrow> string" where
  "uri_path u = (if path u \<noteq> [] then path u else if uri_hostname u \<noteq> [] then ''/'' else [])"

text \<open>\<^verbatim>\<open>s.split(d)\<close> and \<^verbatim>\<open>xs.join(d)\<close>.\<close>

fun split_on :: "char \<Rightarrow> string \<Rightarrow> string list" where
  "split_on d [] = [[]]"
| "split_on d (c # cs) =
     (if c = d then [] # split_on d cs
      else (case split_on d cs of [] \<Rightarrow> [[c]] | x # xs \<Rightarrow> (c # x) # xs))"

fun join_with :: "char \<Rightarrow> string list \<Rightarrow> string" where
  "join_with d [] = []"
| "join_with d [x] = x"
| "join_with d (x # y # ys) = x @ d # join_with d (y # ys)"

text \<open>\<^verbatim>\<open>segment()\<close>: the path split at \<^verbatim>\<open>/\<close>, without the empty first piece of an
  absolute path.\<close>

definition segments :: "uri \<Rightarrow> string list" where
  "segments u =
     (let p = uri_path u; segs = split_on CHR ''/'' p
      in if take 1 p = ''/'' then tl segs else segs)"

text \<open>\<^verbatim>\<open>segment(array)\<close> collapses empty elements: an empty element is dropped at the
  start and after another empty one, and removed when a further element follows it.\<close>

fun collapse :: "string list \<Rightarrow> string list \<Rightarrow> string list" where
  "collapse acc [] = acc"
| "collapse acc (v # vs) =
     (if v = [] \<and> (acc = [] \<or> last acc = []) then collapse acc vs
      else collapse ((if acc \<noteq> [] \<and> last acc = [] then butlast acc else acc) @ [v]) vs)"

text \<open>The path setter \<^verbatim>\<open>path(v)\<close> for a string: \<^verbatim>\<open>v ? URI.recodePath(v) : '/'\<close>;
  recoding changes nothing on path characters.\<close>

definition set_path :: "uri \<Rightarrow> string \<Rightarrow> uri option" where
  "set_path u v =
     (if v = [] then Some (u\<lparr>path := ''/''\<rparr>)
      else if list_all path_char v then Some (u\<lparr>path := v\<rparr>)
      else None)"

text \<open>\<^verbatim>\<open>new URI('')\<close>.\<close>

definition empty_uri :: uri where
  "empty_uri = \<lparr>protocol = None, hostname = None, port = None, path = [], query = None,
                 fragment = None\<rparr>"

text \<open>\<^verbatim>\<open>URI.joinPaths(a, b)\<close> for two parsed arguments.\<close>

definition joinPaths :: "uri \<Rightarrow> uri \<Rightarrow> uri option" where
  "joinPaths a b =
     (let segs = segments a @ segments b in
      if segs = [] \<or> \<not> list_ex (\<lambda>s. s \<noteq> []) segs then Some empty_uri
      else if list_ex (\<lambda>s. s = ''.'' \<or> s = ''..'') segs then None
      else (case set_path empty_uri (join_with CHR ''/'' (collapse [] segs)) of
              None \<Rightarrow> None
            | Some u \<Rightarrow>
                if uri_path a = [] \<or> take 1 (uri_path a) = ''/''
                then set_path u (CHR ''/'' # uri_path u)
                else Some u))"

section \<open>Request dispatcher (lines 63--67, 90--105, 211--229)\<close>

text \<open>\<^verbatim>\<open>parseUrl(uri, path)\<close>: the server's URI with its path replaced by the join of
  its own path and \<open>p\<close>. The path setter is given the URI object \<^verbatim>\<open>pathJoined\<close>, which is
  truthy whatever it holds, and stores its string.\<close>

definition parseUrl :: "string \<Rightarrow> uri \<Rightarrow> uri option" where
  "parseUrl srv p =
     (case parse_uri srv of
        None \<Rightarrow> None
      | Some u \<Rightarrow>
          (case joinPaths u p of
             None \<Rightarrow> None
           | Some pathJoined \<Rightarrow>
               if list_all path_char (build pathJoined)
               then Some (u\<lparr>path := build pathJoined\<rparr>)
               else None))"

text \<open>Lines 91--99 and 102 of \<^verbatim>\<open>request\<close>: the URL the transport is given for the
  configured server, the API prefix and the request's \<^verbatim>\<open>url\<close>.\<close>

definition resolve :: "string \<Rightarrow> string \<Rightarrow> string \<Rightarrow> string option" where
  "resolve srv pfx u =
     (case parse_uri u of
        None \<Rightarrow> None
      | Some uri0 \<Rightarrow>
          if uri_hostname uri0 = [] then
            (let pre = (if prefix pfx u \<or> prefix (CHR ''/'' # pfx) u then [] else pfx) in
             case parse_uri pre of
               None \<Rightarrow> None
             | Some a \<Rightarrow>
                 (case joinPaths a uri0 of
                    None \<Rightarrow> None
                  | Some p \<Rightarrow> map_option build (parseUrl srv p)))
          else Some (build uri0))"

text \<open>\<^verbatim>\<open>request(config)\<close>. \<open>None\<close>: a URL outside the modelled ones.\<close>

definition request ::
  "client \<Rightarrow> collaborators \<Rightarrow> request_config \<Rightarrow> world \<Rightarrow> ((thrown + jsval) \<times> world) option" where
  "request c co cfg w =
     (case resolve (server c) (apiPrefix c) (url cfg) of
        None \<Rightarrow> None
      | Some u \<Rightarrow>
          (case patchHeaders c w (headers cfg) of
             Inl t \<Rightarrow> Some (Inl t, w)
           | Inr hs \<Rightarrow> Some (axios_request co (cfg\<lparr>url := u, headers := hs\<rparr>) w)))"

text \<open>The verb helpers; \<open>cfg\<close> is the optional \<^verbatim>\<open>config\<close> argument.\<close>

definition get ::
  "client \<Rightarrow> collaborators \<Rightarrow> string \<Rightarrow> request_config \<Rightarrow> world \<Rightarrow> ((thrown + jsval) \<times> world) option" where
  "get c co u cfg w = request c co (cfg\<lparr>meth := ''get'', url := u\<rparr>) w"

definition delete ::
  "client \<Rightarrow> collaborators \<Rightarrow> string \<Rightarrow> request_config \<Rightarrow> world \<Rightarrow> ((thrown + jsval) \<times> world) option" where
  "delete c co u cfg w = request c co (cfg\<lparr>meth := ''delete'', url := u\<rparr>) w"

definition post ::
  "client \<Rightarrow> collaborators \<Rightarrow> string \<Rightarrow> jsval \<Rightarrow> request_config \<Rightarrow> world
     \<Rightarrow> ((thrown + jsval) \<times> world) option" where
  "post c co u d cfg w = request c co (cfg\<lparr>meth := ''post'', url := u, body := d\<rparr>) w"

definition put ::
  "client \<Rightarrow> collaborators \<Rightarrow> string \<Rightarrow> jsval \<Rightarrow> request_config \<Rightarrow> world
     \<Rightarrow> ((thrown + jsval) \<times> world) option" where
  "put c co u d cfg w = request c co (cfg\<lparr>meth := ''put'', url := u, body := d\<rparr>) w"

definition patch ::
  "client \<Rightarrow> collaborators \<Rightarrow> string \<Rightarrow> jsval \<Rightarrow> request_config \<Rightarrow> world
     \<Rightarrow> ((thrown + jsval) \<times> world) option" where
  "patch c co u d cfg w = request c co (cfg\<lparr>meth := ''patch'', url := u, body := d\<rparr>) w"

text \<open>The empty \<^verbatim>\<open>config = {}\<close> of a verb helper called with a URL only.\<close>

definition no_config :: request_config where
  "no_config = \<lparr>meth = [], url = [], body = JUndefined, headers = []\<rparr>"

text \<open>The template literal of lines 153--154: the token path, a line break, four blanks
  and the letter X.\<close>

definition revoke_url :: "jsval \<Rightarrow> string" where
  "revoke_url apiToken =
     ''/api/v1/admin/token/'' @ to_string apiToken @ [CHR 0x0A] @ ''    X''"

text \<open>\<^verbatim>\<open>revokeLegacyToken()\<close>: the promise of \<^verbatim>\<open>delete\<close> is dropped, so a rejection does
  not reach the caller.\<close>

definition revokeLegacyToken ::
  "client \<Rightarrow> collaborators \<Rightarrow> world \<Rightarrow> ((thrown + jsval) \<times> world) option" where
  "revokeLegacyToken c co w =
     (if truthy (token_store w) then
        (case get_prop (token_store w) ''apiToken'' of
           Inl t \<Rightarrow> Some (Inl t, w)
         | Inr a \<Rightarrow>
             (case delete c co (revoke_url a) no_config w of
                None \<Rightarrow> None
              | Some (r, w1) \<Rightarrow> Some (Inr JUndefined, w1)))
      else Some (Inr JUndefined, w))"

section \<open>Well-formed URIs\<close>

text \<open>
  What \<open>parse_uri\<close> returns and what the dispatcher builds from it: components over the
  characters of the model, a host that is not empty, a path that is empty or starts with
  \<^verbatim>\<open>/\<close> when there is a host and does not start with \<^verbatim>\<open>//\<close> when there is none.
\<close>

definition wf_uri :: "uri \<Rightarrow> bool" where
  "wf_uri x =
     (list_all path_char (path x)
      \<and> (case query x of None \<Rightarrow> True | Some q \<Rightarrow> q \<noteq> [] \<and> list_all query_char q)
      \<and> (case fragment x of None \<Rightarrow> True | Some f \<Rightarrow> f \<noteq> [] \<and> list_all query_char f)
      \<and> (case hostname x of
           None \<Rightarrow> protocol x = None \<and> port x = None \<and> take 2 (path x) \<noteq> ''//''
         | Some h \<Rightarrow>
             h \<noteq> [] \<and> list_all unreserved h
             \<and> (case protocol x of None \<Rightarrow> True | Some p \<Rightarrow> valid_protocol p)
             \<and> (case port x of None \<Rightarrow> True | Some p \<Rightarrow> valid_port p)
             \<and> (path x = [] \<or> take 1 (path x) = ''/'')))"

text \<open>The part of \<open>build\<close> before the query, and a URI with the empty path of a host
  written \<^verbatim>\<open>/\<close>, as \<open>build\<close> prints it.\<close>

definition hier :: "uri \<Rightarrow> string" where
  "hier x = build (x\<lparr>query := None, fragment := None\<rparr>)"

definition canonical :: "uri \<Rightarrow> uri" where
  "canonical x = x\<lparr>path := (if hostname x \<noteq> None \<and> path x = [] then ''/'' else path x)\<rparr>"

text \<open>A URI that holds a path only.\<close>

definition path_only :: "uri \<Rightarrow> bool" where
  "path_only u = (protocol u = None \<and> hostname u = None \<and> port u = None \<and> query u = None
                  \<and> fragment u = None)"

section \<open>Properties of the token store\<close>

lemma strict_eq_refl: "strict_eq b b"
  by (cases b) simp_all

lemma token_calls_emitted:
  "emitted (token_calls bs w) =
     emitted w @ map (Pair ''tokenChanged'') (transitions (token_store w) bs)"
  by (induction bs arbitrary: w) (simp_all add: Let_def)

lemma token_calls_store:
  "token_store (token_calls bs w) = (if bs = [] then token_store w else last bs)"
  by (induction bs arbitrary: w) (simp_all add: Let_def)

text \<open>
  Claim C2. A write whose argument is \<^verbatim>\<open>===\<close> to the stored bundle emits nothing; a write
  whose argument differs emits exactly one \<^verbatim>\<open>tokenChanged\<close> carrying the new bundle; so a
  sequence of writes emits one notification per transition, in order; and writing the same
  bundle twice into the empty store emits exactly one notification.
\<close>

theorem token_change_detection:
  "(strict_eq (token_store w) b \<longrightarrow> emitted (snd (token [b] w)) = emitted w)
   \<and> (\<not> strict_eq (token_store w) b \<longrightarrow>
        emitted (snd (token [b] w)) = emitted w @ [(''tokenChanged'', b)])
   \<and> token_store (snd (token [b] w)) = b
   \<and> emitted (token_calls bs w) =
        emitted w @ map (Pair ''tokenChanged'') (transitions (token_store w) bs)
   \<and> (token_store w = JUndefined \<and> b \<noteq> JUndefined \<longrightarrow>
        emitted (token_calls [b, b] w) = emitted w @ [(''tokenChanged'', b)])"
proof -
  have same: "token_store w = JUndefined \<and> b \<noteq> JUndefined \<longrightarrow>
      emitted (token_calls [b, b] w) = emitted w @ [(''tokenChanged'', b)]"
  proof
    assume h: "token_store w = JUndefined \<and> b \<noteq> JUndefined"
    then have "\<not> strict_eq JUndefined b" by (cases b) simp_all
    with h show "emitted (token_calls [b, b] w) = emitted w @ [(''tokenChanged'', b)]"
      by (simp add: token_calls_emitted strict_eq_refl)
  qed
  show ?thesis
    using same by (simp add: Let_def token_calls_emitted)
qed

theorem token_change_detection_witness:
  "emitted (token_calls [JObj 1 [(''accessToken'', JStr ''a'')],
                         JObj 1 [(''accessToken'', JStr ''a'')],
                         JObj 2 [(''accessToken'', JStr ''a'')]]
      \<lparr>token_store = JUndefined, emitted = [], sent = [], rc_session = JUndefined, next_ref = 3\<rparr>)
   = [(''tokenChanged'', JObj 1 [(''accessToken'', JStr ''a'')]),
      (''tokenChanged'', JObj 2 [(''accessToken'', JStr ''a'')])]"
  using token_change_detection
    [of "\<lparr>token_store = JUndefined, emitted = [], sent = [], rc_session = JUndefined, next_ref = 3\<rparr>"
        "JObj 1 [(''accessToken'', JStr ''a'')]"
        "[JObj 1 [(''accessToken'', JStr ''a'')], JObj 1 [(''accessToken'', JStr ''a'')],
          JObj 2 [(''accessToken'', JStr ''a'')]]"]
  by simp

section \<open>Properties of the error classifier\<close>

lemma each_property_throws: "each_property rs = Inl t \<Longrightarrow> Inl t \<in> set rs"
  by (induction rs rule: each_property.induct) (auto split: sum.splits)

lemma json_member_throws: "json_member k r = Inl t \<Longrightarrow> r = Inl t"
  by (auto simp add: json_member_def split: sum.splits option.splits)

lemma SerializeJSONProperty_throws:
  "SerializeJSONProperty stack indent v = Inl t \<Longrightarrow> t = TypeError"
proof (induction stack indent v rule: SerializeJSONProperty.induct)
  case (7 stack indent r ps)
  show ?case
  proof (cases "r \<in> set stack")
    case True
    with 7 show ?thesis by simp
  next
    case False
    let ?rs = "map (\<lambda>(k, v). json_member k
                      (SerializeJSONProperty (r # stack) (indent @ ''  '') v)) ps"
    from 7(2) False have "each_property ?rs = Inl t"
      by (simp split: sum.splits)
    then have "Inl t \<in> set ?rs" by (rule each_property_throws)
    then obtain k v where kv: "(k, v) \<in> set ps"
      and m: "json_member k (SerializeJSONProperty (r # stack) (indent @ ''  '') v) = Inl t"
      by auto
    from m have "SerializeJSONProperty (r # stack) (indent @ ''  '') v = Inl t"
      by (rule json_member_throws)
    with 7(1) [OF False kv refl] show ?thesis by simp
  qed
qed simp_all

lemma JSON_stringify_throws: "JSON_stringify v = Inl t \<Longrightarrow> t = TypeError"
  by (auto simp add: JSON_stringify_def split: sum.splits option.splits
           dest: SerializeJSONProperty_throws)

lemma each_property_returns:
  "(\<exists>xs. each_property rs = Inr xs) = (\<forall>r \<in> set rs. \<exists>a. r = Inr a)"
  by (induction rs rule: each_property.induct) (auto split: sum.splits)

lemma json_member_returns: "(\<exists>m. json_member k r = Inr m) = (\<exists>x. r = Inr x)"
  by (auto simp add: json_member_def split: sum.splits option.splits)

lemma SerializeJSONProperty_returns:
  "(\<exists>x. SerializeJSONProperty stack indent v = Inr x) = serialisable stack v"
proof (induction stack indent v rule: SerializeJSONProperty.induct)
  case (7 stack indent r ps)
  show ?case
  proof (cases "r \<in> set stack")
    case True
    then show ?thesis by simp
  next
    case False
    let ?f = "\<lambda>(k, v). json_member k (SerializeJSONProperty (r # stack) (indent @ ''  '') v)"
    have "(\<exists>x. SerializeJSONProperty stack indent (JObj r ps) = Inr x)
          = (\<exists>ms. each_property (map ?f ps) = Inr ms)"
      using False by (auto split: sum.splits)
    also have "\<dots> = (\<forall>q \<in> set (map ?f ps). \<exists>a. q = Inr a)"
      by (rule each_property_returns)
    also have "\<dots> = (\<forall>(k, v) \<in> set ps.
                       \<exists>x. SerializeJSONProperty (r # stack) (indent @ ''  '') v = Inr x)"
      using json_member_returns by (auto simp add: case_prod_beta)
    also have "\<dots> = (\<forall>(k, v) \<in> set ps. serialisable (r # stack) v)"
    proof (intro ball_cong refl)
      fix q assume q: "q \<in> set ps"
      obtain k v where kv: "q = (k, v)" by (cases q)
      from 7 [OF False _ refl, of k v] q kv
      show "(case q of (k, v) \<Rightarrow>
               \<exists>x. SerializeJSONProperty (r # stack) (indent @ ''  '') v = Inr x)
            = (case q of (k, v) \<Rightarrow> serialisable (r # stack) v)"
        by simp
    qed
    finally show ?thesis using False by simp
  qed
qed simp_all

lemma JSON_stringify_returns: "(\<exists>x. JSON_stringify v = Inr x) = serialisable [] v"
  using SerializeJSONProperty_returns [of "[]" "[]" v]
  by (auto simp add: JSON_stringify_def split: sum.splits option.splits)

lemma JSON_stringify_unserialisable:
  assumes "\<not> serialisable [] v"
  shows "JSON_stringify v = Inl TypeError"
proof (cases "JSON_stringify v")
  case (Inl t)
  with JSON_stringify_throws [of v t] show ?thesis by simp
next
  case (Inr x)
  then have "\<exists>x. JSON_stringify v = Inr x" by blast
  with assms show ?thesis by (simp only: JSON_stringify_returns)
qed


lemma new_HTTPError_throws:
  "JSON_stringify d = Inl t \<or> JSON_stringify cfg = Inl t \<Longrightarrow>
   new_HTTPError st stt d cfg = TypeError"
  by (auto simp add: new_HTTPError_def message_def split: sum.splits
           dest: JSON_stringify_throws)

lemma classify_response:
  "get_prop e ''response'' = Inr (JObj j fs) \<Longrightarrow>
   classify e = new_HTTPError (lookup fs ''status'') (lookup fs ''statusText'')
                  (lookup fs ''data'') (lookup fs ''config'')"
  by (simp add: classify_def)


lemma classify_unserialisable:
  assumes "get_prop e ''response'' = Inr (JObj j fs)"
    and "\<not> serialisable [] (lookup fs ''data'') \<or> \<not> serialisable [] (lookup fs ''config'')"
  shows "classify e = TypeError"
proof -
  from assms(2) have "JSON_stringify (lookup fs ''data'') = Inl TypeError
                    \<or> JSON_stringify (lookup fs ''config'') = Inl TypeError"
    using JSON_stringify_unserialisable by blast
  then have "new_HTTPError (lookup fs ''status'') (lookup fs ''statusText'')
               (lookup fs ''data'') (lookup fs ''config'') = TypeError"
    by (rule new_HTTPError_throws)
  with classify_response [OF assms(1)] show ?thesis by simp
qed

lemma axios_request_resolved:
  "transport co (sent w) cfg = Inr res \<Longrightarrow>
   axios_request co cfg w = (Inr res, w\<lparr>sent := sent w @ [cfg]\<rparr>)"
  by (simp add: axios_request_def)

lemma axios_request_rejected:
  "transport co (sent w) cfg = Inl e \<Longrightarrow>
   axios_request co cfg w = (Inl (classify e), w\<lparr>sent := sent w @ [cfg]\<rparr>)"
  by (simp add: axios_request_def)

lemma sent_axios_request: "sent (snd (axios_request co cfg w)) = sent w @ [cfg]"
  by (simp add: axios_request_def Let_def split: sum.splits)




section \<open>Properties of header injection\<close>

lemma get_prop_truthy: "truthy v \<Longrightarrow> get_prop v k = Inr (optional_chain v k)"
  by (cases v) (simp_all add: optional_chain_def)

lemma optional_chain_falsy: "\<not> truthy v \<Longrightarrow> optional_chain v k = JUndefined"
  by (cases v) (simp_all add: optional_chain_def)

text \<open>
  Claim C3, as the code has it. The injected auth headers depend on the server mode and
  the stored bundle only. With no bundle stored (or a falsy one) Legacy gives
  \<^verbatim>\<open>{'X-Auth-Token': ''}\<close> and Modern \<^verbatim>\<open>{'Authorization': 'Bearer '}\<close>; with a bundle Legacy
  gives \<^verbatim>\<open>{'X-Auth-Token': bundle.apiToken}\<close> and Modern
  \<^verbatim>\<open>{'Authorization': `Bearer ${bundle.accessToken}`}\<close>. This is the specification's formula
  whenever no bundle is stored or the bundle's property is neither \<^verbatim>\<open>undefined\<close> nor
  \<^verbatim>\<open>null\<close>. The headers hold one key: \<^verbatim>\<open>X-Auth-Token\<close> for Legacy, \<^verbatim>\<open>Authorization\<close> for
  Modern.
\<close>

theorem auth_header_injection:
  "(isLegacy c = isLegacy c' \<and> token_store w = token_store w' \<longrightarrow>
      authHeaders c w = authHeaders c' w')
   \<and> (\<not> truthy (token_store w) \<longrightarrow>
        authHeaders c w = Inr (if isLegacy c then [(''X-Auth-Token'', JStr [])]
                               else [(''Authorization'', JStr ''Bearer '')]))
   \<and> (truthy (token_store w) \<longrightarrow>
        authHeaders c w =
          Inr (if isLegacy c then [(''X-Auth-Token'', optional_chain (token_store w) ''apiToken'')]
               else [(''Authorization'',
                      JStr (''Bearer '' @ to_string (optional_chain (token_store w) ''accessToken'')))]))
   \<and> (\<not> truthy (token_store w)
        \<or> \<not> nullish (optional_chain (token_store w)
                        (if isLegacy c then ''apiToken'' else ''accessToken''))
      \<longrightarrow> authHeaders c w = Inr (spec_auth_headers (isLegacy c) (token_store w)))
   \<and> (\<exists>v. authHeaders c w = Inr [(if isLegacy c then ''X-Auth-Token'' else ''Authorization'', v)])"
  by (auto simp add: authHeaders_def legacyHeader_def bearerAuthorizationHeader_def
        spec_auth_headers_def coalesce_def get_prop_truthy optional_chain_falsy)

theorem auth_header_injection_witness:
  "authHeaders (new_client JUndefined JUndefined (Some ''https://portal.vacd.biz'') None None JUndefined)
      \<lparr>token_store = JUndefined, emitted = [], sent = [], rc_session = JUndefined, next_ref = 0\<rparr>
     = Inr [(''X-Auth-Token'', JStr [])]
   \<and> authHeaders (new_client JUndefined JUndefined (Some ''https://portal.vacd.biz'') None None JUndefined)
      \<lparr>token_store = JObj 1 [(''apiToken'', JStr ''abc'')], emitted = [], sent = [],
       rc_session = JUndefined, next_ref = 2\<rparr>
     = Inr [(''X-Auth-Token'', JStr ''abc'')]
   \<and> authHeaders (new_client JUndefined JUndefined None None None JUndefined)
      \<lparr>token_store = JObj 1 [(''accessToken'', JStr ''xyz'')], emitted = [], sent = [],
       rc_session = JUndefined, next_ref = 2\<rparr>
     = Inr [(''Authorization'', JStr ''Bearer xyz'')]"
proof -
  let ?leg = "new_client JUndefined JUndefined (Some ''https://portal.vacd.biz'') None None JUndefined"
  let ?mod = "new_client JUndefined JUndefined None None None JUndefined"
  let ?w0 = "\<lparr>token_store = JUndefined, emitted = [], sent = [], rc_session = JUndefined,
              next_ref = 0\<rparr>"
  let ?w1 = "\<lparr>token_store = JObj 1 [(''apiToken'', JStr ''abc'')], emitted = [], sent = [],
              rc_session = JUndefined, next_ref = 2\<rparr>"
  let ?w2 = "\<lparr>token_store = JObj 1 [(''accessToken'', JStr ''xyz'')], emitted = [], sent = [],
              rc_session = JUndefined, next_ref = 2\<rparr>"
  have l: "isLegacy ?leg" "\<not> isLegacy ?mod"
    by (simp_all add: new_client_def isLegacyServer_def LEGACY_SERVERS_def SERVER_def)
  from auth_header_injection [where c = ?leg and w = ?w0] l
  have a: "authHeaders ?leg ?w0 = Inr [(''X-Auth-Token'', JStr [])]" by simp
  from auth_header_injection [where c = ?leg and w = ?w1] l
  have b: "authHeaders ?leg ?w1 = Inr [(''X-Auth-Token'', JStr ''abc'')]"
    by (simp add: spec_auth_headers_def coalesce_def optional_chain_def lookup_def)
  from auth_header_injection [where c = ?mod and w = ?w2] l
  have c: "authHeaders ?mod ?w2 = Inr [(''Authorization'', JStr ''Bearer xyz'')]"
    by (simp add: spec_auth_headers_def coalesce_def optional_chain_def lookup_def)
  from a b c show ?thesis by simp
qed

text \<open>
  Claim C3 as stated fails on a stored bundle without the property: a Modern client whose
  bundle has no \<^verbatim>\<open>accessToken\<close> sends \<^verbatim>\<open>Bearer undefined\<close>, where the formula
  \<^verbatim>\<open>'Bearer ' + (bundle?.accessToken ?? '')\<close> gives \<^verbatim>\<open>Bearer \<close>.
\<close>

theorem auth_header_counterexample:
  "authHeaders (new_client JUndefined JUndefined None None None JUndefined)
      \<lparr>token_store = JObj 1 [(''refreshToken'', JStr ''r'')], emitted = [], sent = [],
       rc_session = JUndefined, next_ref = 2\<rparr>
     = Inr [(''Authorization'', JStr ''Bearer undefined'')]
   \<and> spec_auth_headers False (JObj 1 [(''refreshToken'', JStr ''r'')])
     = [(''Authorization'', JStr ''Bearer '')]"
  by (simp add: authHeaders_def new_client_def isLegacyServer_def SERVER_def LEGACY_SERVERS_def
        bearerAuthorizationHeader_def spec_auth_headers_def coalesce_def optional_chain_def
        lookup_def)

section \<open>Properties of the authentication engine\<close>

lemma sent_exchange:
  "sent (snd (case axios_request co cfg w of
                (Inl t, w1) \<Rightarrow> (Inl t, w1)
              | (Inr res, w1) \<Rightarrow>
                  (case get_prop res ''data'' of
                     Inl t \<Rightarrow> (Inl t, w1)
                   | Inr r \<Rightarrow> (Inr JUndefined, snd (token [r] w1))))) = sent w @ [cfg]"
proof -
  obtain x w1 where ax: "axios_request co cfg w = (x, w1)" by (cases "axios_request co cfg w")
  then have "sent w1 = sent w @ [cfg]" using sent_axios_request [of co cfg w] by simp
  then show ?thesis using ax
    by (cases x; cases "get_prop (projr x) ''data''") (simp_all add: Let_def)
qed

lemma getToken_with_refresh_token:
  "truthy rt \<Longrightarrow>
   sent (snd (getToken c co rt w)) =
     sent w @ [\<lparr>meth = ''post'',
                url = server c @ ''/api/auth/login/rc/accesstoken?includeRefresh=true'',
                body = JStr (''refreshToken='' @ to_string rt @ ''&rcTokenType=Bearer''),
                headers = form_headers\<rparr>]"
  by (simp add: getToken_def Let_def sent_exchange)

lemma getToken_without_refresh_token:
  "\<not> truthy rt \<Longrightarrow>
   sent (snd (getToken c co rt w)) =
     sent w @ [\<lparr>meth = ''post'',
                url = server c @ ''/api/auth/login/rc/accesstoken?includeRefresh=true'',
                body = JStr (''rcAccessToken='' @ session_access_token (rc_session w)
                             @ ''&rcTokenType=Bearer''),
                headers = form_headers\<rparr>]"
proof (cases "truthy (rc_session w)")
  case True
  assume "\<not> truthy rt"
  from True obtain a where a: "get_prop (rc_session w) ''access_token'' = Inr a"
    by (cases "rc_session w") simp_all
  show ?thesis
    using \<open>\<not> truthy rt\<close> True a
    by (simp add: getToken_def Let_def sent_exchange session_access_token_def)
next
  case False
  assume "\<not> truthy rt"
  have s: "session_access_token (rc_session w) = []"
    using False by (cases "rc_session w") (simp_all add: session_access_token_def)
  show ?thesis
    using \<open>\<not> truthy rt\<close> False s
    by (simp add: getToken_def Let_def lookup_def sent_exchange)
qed

text \<open>
  Claim C7. With a stored bundle whose \<^verbatim>\<open>refreshToken\<close> is truthy, \<^verbatim>\<open>refresh()\<close> hands the
  transport exactly one request, a POST to
  \<^verbatim>\<open>{server}/api/auth/login/rc/accesstoken?includeRefresh=true\<close> with the body
  \<^verbatim>\<open>refreshToken=<refreshToken>&rcTokenType=Bearer\<close>. The token exchange called without a
  refresh token sends one POST to the same URL with the body
  \<^verbatim>\<open>rcAccessToken=<t>&rcTokenType=Bearer\<close>, \<open>t\<close> being the session's access token or the
  empty string.
\<close>

theorem token_exchange_requests:
  "(get_prop (token_store w) ''refreshToken'' = Inr rt \<and> truthy rt \<longrightarrow>
      sent (snd (refresh c co w)) =
        sent w @ [\<lparr>meth = ''post'',
                   url = server c @ ''/api/auth/login/rc/accesstoken?includeRefresh=true'',
                   body = JStr (''refreshToken='' @ to_string rt @ ''&rcTokenType=Bearer''),
                   headers = form_headers\<rparr>])
   \<and> (\<not> truthy rt' \<longrightarrow>
      sent (snd (getToken c co rt' w)) =
        sent w @ [\<lparr>meth = ''post'',
                   url = server c @ ''/api/auth/login/rc/accesstoken?includeRefresh=true'',
                   body = JStr (''rcAccessToken='' @ session_access_token (rc_session w)
                                @ ''&rcTokenType=Bearer''),
                   headers = form_headers\<rparr>])"
  using getToken_with_refresh_token [of rt c co w] getToken_without_refresh_token [of rt' c co w]
  by (simp add: refresh_def)

theorem token_exchange_requests_witness:
  "sent (snd (refresh (new_client JUndefined JUndefined None None None JUndefined)
                 \<lparr>transport = (\<lambda>h r. Inr (JObj 5 [(''data'', JObj 6 [])])), rc_login = (\<lambda>a s. Inr s)\<rparr>
                 \<lparr>token_store = JObj 1 [(''accessToken'', JStr ''a1''), (''refreshToken'', JStr ''r1'')],
                  emitted = [], sent = [], rc_session = JUndefined, next_ref = 2\<rparr>))
     = [\<lparr>meth = ''post'',
         url = ''https://engage.ringcentral.com/api/auth/login/rc/accesstoken?includeRefresh=true'',
         body = JStr ''refreshToken=r1&rcTokenType=Bearer'', headers = form_headers\<rparr>]
   \<and> sent (snd (getToken (new_client JUndefined JUndefined None None None JUndefined)
                 \<lparr>transport = (\<lambda>h r. Inr (JObj 5 [(''data'', JObj 6 [])])), rc_login = (\<lambda>a s. Inr s)\<rparr>
                 JUndefined
                 \<lparr>token_store = JUndefined, emitted = [], sent = [],
                  rc_session = JObj 3 [(''access_token'', JStr ''at'')], next_ref = 4\<rparr>))
     = [\<lparr>meth = ''post'',
         url = ''https://engage.ringcentral.com/api/auth/login/rc/accesstoken?includeRefresh=true'',
         body = JStr ''rcAccessToken=at&rcTokenType=Bearer'', headers = form_headers\<rparr>]"
proof -
  let ?c = "new_client JUndefined JUndefined None None None JUndefined"
  let ?co = "\<lparr>transport = (\<lambda>h r. Inr (JObj 5 [(''data'', JObj 6 [])])), rc_login = (\<lambda>a s. Inr s)\<rparr>"
  let ?w1 = "\<lparr>token_store = JObj 1 [(''accessToken'', JStr ''a1''), (''refreshToken'', JStr ''r1'')],
              emitted = [], sent = [], rc_session = JUndefined, next_ref = 2\<rparr>"
  let ?w2 = "\<lparr>token_store = JUndefined, emitted = [], sent = [],
              rc_session = JObj 3 [(''access_token'', JStr ''at'')], next_ref = 4\<rparr>"
  have srv: "server ?c = ''https://engage.ringcentral.com''"
    by (simp add: new_client_def SERVER_def Let_def)
  from token_exchange_requests [where w = ?w1 and rt = "JStr ''r1''" and c = ?c and co = ?co]
  have a: "sent (snd (refresh ?c ?co ?w1))
     = [\<lparr>meth = ''post'',
         url = ''https://engage.ringcentral.com/api/auth/login/rc/accesstoken?includeRefresh=true'',
         body = JStr ''refreshToken=r1&rcTokenType=Bearer'', headers = form_headers\<rparr>]"
    by (simp add: srv lookup_def)
  from token_exchange_requests [where w = ?w2 and rt' = JUndefined and c = ?c and co = ?co]
  have b: "sent (snd (getToken ?c ?co JUndefined ?w2))
     = [\<lparr>meth = ''post'',
         url = ''https://engage.ringcentral.com/api/auth/login/rc/accesstoken?includeRefresh=true'',
         body = JStr ''rcAccessToken=at&rcTokenType=Bearer'', headers = form_headers\<rparr>]"
    by (simp add: srv session_access_token_def lookup_def)
  from a b show ?thesis by simp
qed

text \<open>
  Claim C10. \<^verbatim>\<open>refresh()\<close> called while nothing is stored (\<^verbatim>\<open>undefined\<close>, or
  \<^verbatim>\<open>null\<close>) throws the \<^verbatim>\<open>TypeError\<close> of the property read and leaves the whole state as
  it was: no request is handed to the transport, nothing is stored, nothing is emitted.
\<close>

theorem refresh_empty_store:
  "nullish (token_store w) \<Longrightarrow>
   refresh c co w = (Inl TypeError, w)
   \<and> sent (snd (refresh c co w)) = sent w
   \<and> token_store (snd (refresh c co w)) = token_store w"
  by (cases "token_store w") (simp_all add: refresh_def)

theorem refresh_empty_store_witness:
  "refresh (new_client JUndefined JUndefined None None None JUndefined)
      \<lparr>transport = (\<lambda>h r. Inr (JObj 5 [(''data'', JObj 6 [])])), rc_login = (\<lambda>a s. Inr s)\<rparr>
      \<lparr>token_store = JUndefined, emitted = [], sent = [], rc_session = JUndefined, next_ref = 0\<rparr>
   = (Inl TypeError,
      \<lparr>token_store = JUndefined, emitted = [], sent = [], rc_session = JUndefined, next_ref = 0\<rparr>)"
  using refresh_empty_store
    [where w = "\<lparr>token_store = JUndefined, emitted = [], sent = [], rc_session = JUndefined, next_ref = 0\<rparr>"
       and c = "new_client JUndefined JUndefined None None None JUndefined"
       and co = "\<lparr>transport = (\<lambda>h r. Inr (JObj 5 [(''data'', JObj 6 [])])), rc_login = (\<lambda>a s. Inr s)\<rparr>"]
  by simp

lemma set_prop_fresh: "k \<notin> fst ` set ps \<Longrightarrow> set_prop ps k v = ps @ [(k, v)]"
  by (induction ps) auto

lemma assign_distinct: "distinct (map fst (qs @ ps)) \<Longrightarrow> assign qs ps = qs @ ps"
proof (induction ps arbitrary: qs)
  case Nil
  then show ?case by simp
next
  case (Cons kv ps)
  obtain k v where kv: "kv = (k, v)" by (cases kv)
  from Cons.prems kv have fresh: "k \<notin> fst ` set qs" by auto
  from Cons.prems kv have "distinct (map fst ((qs @ [(k, v)]) @ ps))" by auto
  from Cons.IH [OF this] show ?case using kv fresh by (simp add: set_prop_fresh)
qed

lemma map_of_set_prop:
  "map_of (set_prop ps k v) k' = (if k' = k then Some v else map_of ps k')"
  by (induction ps) auto

lemma new_client_server:
  "isLegacy (new_client cid secret (Some srv) rcsrv pfx ver) = isLegacyServer srv"
  "server (new_client cid secret (Some srv) rcsrv pfx ver) = srv"
  by (simp_all add: new_client_def)

text \<open>
  Claim C1. A client constructed with a legacy server, asked to
  \<^verbatim>\<open>authorize({username: u, password: p})\<close>: when both requests succeed and the login
  response is an object holding \<^verbatim>\<open>authToken\<close>, exactly two requests have been handed to the
  transport, the POST to \<^verbatim>\<open>{server}/api/v1/auth/login\<close> with the form body and then the POST
  to \<^verbatim>\<open>{server}/api/v1/admin/token\<close> with \<^verbatim>\<open>X-Auth-Token\<close> set to that \<^verbatim>\<open>authToken\<close>;
  \<^verbatim>\<open>token()\<close> then returns a new object, the login response with the second response under
  \<^verbatim>\<open>apiToken\<close>, so it holds both keys. When the first or the second request is rejected,
  the classified error is the result and the token store and the notifications are as
  before.
\<close>

theorem legacy_authorize:
  assumes leg: "isLegacyServer srv"
    and c: "c = new_client cid secret (Some srv) rcsrv pfx ver"
    and usr: "get_prop cred ''username'' = Inr (JStr u)"
    and pwd: "get_prop cred ''password'' = Inr (JStr p)"
    and rq_login: "rq_login = \<lparr>meth = ''post'', url = srv @ ''/api/v1/auth/login'',
                       body = JStr (''username='' @ u @ ''&password='' @ p),
                       headers = form_headers\<rparr>"
    and rq_token: "rq_token = \<lparr>meth = ''post'', url = srv @ ''/api/v1/admin/token'', body = JUndefined,
                       headers = [(''X-Auth-Token'', JStr a)]\<rparr>"
    and w': "w' = snd (authorize c co [cred] w)"
  shows "(transport co (sent w) rq_login = Inr res \<and> get_prop res ''data'' = Inr (JObj j fs)
            \<and> distinct (map fst fs) \<and> map_of fs ''authToken'' = Some (JStr a)
            \<and> transport co (sent w @ [rq_login]) rq_token = Inr res_token \<and> get_prop res_token ''data'' = Inr tok
          \<longrightarrow> fst (authorize c co [cred] w) = Inr JUndefined
              \<and> sent w' = sent w @ [rq_login, rq_token]
              \<and> fst (token [] w') = JObj (next_ref w) (set_prop fs ''apiToken'' tok)
              \<and> get_prop (fst (token [] w')) ''authToken'' = Inr (JStr a)
              \<and> get_prop (fst (token [] w')) ''apiToken'' = Inr tok)
       \<and> (transport co (sent w) rq_login = Inl e
          \<longrightarrow> fst (authorize c co [cred] w) = Inl (classify e)
              \<and> sent w' = sent w @ [rq_login]
              \<and> token_store w' = token_store w \<and> emitted w' = emitted w)
       \<and> (transport co (sent w) rq_login = Inr res \<and> get_prop res ''data'' = Inr (JObj j fs)
            \<and> map_of fs ''authToken'' = Some (JStr a)
            \<and> transport co (sent w @ [rq_login]) rq_token = Inl e
          \<longrightarrow> fst (authorize c co [cred] w) = Inl (classify e)
              \<and> sent w' = sent w @ [rq_login, rq_token]
              \<and> token_store w' = token_store w \<and> emitted w' = emitted w)"
proof -
  have auth: "authorize c co [cred] w = getLegacyToken c co cred w"
    using leg c by (simp add: authorize_def legacyAuthorize_def first_arg_def new_client_server)
  have l1: "login_request c (JStr u) (JStr p) = rq_login"
    using c rq_login by (simp add: login_request_def new_client_server)
  have l2: "exchange_request c (JStr a) = rq_token"
    using c rq_token by (cases "a = []") (simp_all add: exchange_request_def new_client_server)
  let ?w1 = "w\<lparr>sent := sent w @ [rq_login]\<rparr>"
  let ?w2 = "?w1\<lparr>sent := sent ?w1 @ [rq_token]\<rparr>"
  have ok: "fst (authorize c co [cred] w) = Inr JUndefined
              \<and> sent w' = sent w @ [rq_login, rq_token]
              \<and> fst (token [] w') = JObj (next_ref w) (set_prop fs ''apiToken'' tok)
              \<and> get_prop (fst (token [] w')) ''authToken'' = Inr (JStr a)
              \<and> get_prop (fst (token [] w')) ''apiToken'' = Inr tok"
    if t1: "transport co (sent w) rq_login = Inr res"
      and d1: "get_prop res ''data'' = Inr (JObj j fs)"
      and dist: "distinct (map fst fs)" and at: "map_of fs ''authToken'' = Some (JStr a)"
      and t2: "transport co (sent w @ [rq_login]) rq_token = Inr res_token"
      and d2: "get_prop res_token ''data'' = Inr tok"
  proof -
    have a1: "axios_request co rq_login w = (Inr res, ?w1)"
      using t1 by (rule axios_request_resolved)
    have a2: "axios_request co rq_token ?w1 = (Inr res_token, ?w2)"
      using t2 axios_request_resolved [of co ?w1 rq_token res_token] by simp
    have sp: "assign [] fs = fs" using assign_distinct [of "[]" fs] dist by simp
    have g: "getLegacyToken c co cred w =
       (Inr JUndefined,
        snd (token [JObj (next_ref w) (set_prop fs ''apiToken'' tok)]
               (?w2\<lparr>next_ref := Suc (next_ref w)\<rparr>)))"
      using usr pwd l1 l2 a1 a2 d1 d2 at sp by (simp add: getLegacyToken_def lookup_def Let_def)
    show ?thesis using g auth w' at
      by (simp add: Let_def lookup_def map_of_set_prop)
  qed
  have f1: "fst (authorize c co [cred] w) = Inl (classify e)
              \<and> sent w' = sent w @ [rq_login]
              \<and> token_store w' = token_store w \<and> emitted w' = emitted w"
    if t1: "transport co (sent w) rq_login = Inl e"
  proof -
    have a1: "axios_request co rq_login w = (Inl (classify e), ?w1)"
      using t1 by (rule axios_request_rejected)
    have "getLegacyToken c co cred w = (Inl (classify e), ?w1)"
      using usr pwd l1 a1 by (simp add: getLegacyToken_def)
    then show ?thesis using auth w' by simp
  qed
  have f2: "fst (authorize c co [cred] w) = Inl (classify e)
              \<and> sent w' = sent w @ [rq_login, rq_token]
              \<and> token_store w' = token_store w \<and> emitted w' = emitted w"
    if t1: "transport co (sent w) rq_login = Inr res"
      and d1: "get_prop res ''data'' = Inr (JObj j fs)"
      and at: "map_of fs ''authToken'' = Some (JStr a)"
      and t2: "transport co (sent w @ [rq_login]) rq_token = Inl e"
  proof -
    have a1: "axios_request co rq_login w = (Inr res, ?w1)"
      using t1 by (rule axios_request_resolved)
    have a2: "axios_request co rq_token ?w1 = (Inl (classify e), ?w2)"
      using t2 axios_request_rejected [of co ?w1 rq_token e] by simp
    have "getLegacyToken c co cred w = (Inl (classify e), ?w2)"
      using usr pwd l1 l2 a1 a2 d1 at by (simp add: getLegacyToken_def lookup_def)
    then show ?thesis using auth w' by simp
  qed
  from ok f1 f2 show ?thesis by blast
qed

theorem legacy_authorize_witness:
  "fst (authorize (new_client JUndefined JUndefined (Some ''https://portal.vacd.biz'') None None JUndefined)
          \<lparr>transport = (\<lambda>h r. if h = [] then Inr (JObj 10 [(''data'', JObj 11 [(''authToken'', JStr ''A'')])])
                                else Inr (JObj 12 [(''data'', JStr ''T'')])),
           rc_login = (\<lambda>a s. Inr s)\<rparr>
          [JObj 1 [(''username'', JStr ''u''), (''password'', JStr ''p'')]]
          \<lparr>token_store = JUndefined, emitted = [], sent = [], rc_session = JUndefined, next_ref = 2\<rparr>)
     = Inr JUndefined
   \<and> sent (snd (authorize (new_client JUndefined JUndefined (Some ''https://portal.vacd.biz'') None None JUndefined)
          \<lparr>transport = (\<lambda>h r. if h = [] then Inr (JObj 10 [(''data'', JObj 11 [(''authToken'', JStr ''A'')])])
                                else Inr (JObj 12 [(''data'', JStr ''T'')])),
           rc_login = (\<lambda>a s. Inr s)\<rparr>
          [JObj 1 [(''username'', JStr ''u''), (''password'', JStr ''p'')]]
          \<lparr>token_store = JUndefined, emitted = [], sent = [], rc_session = JUndefined, next_ref = 2\<rparr>))
     = [\<lparr>meth = ''post'', url = ''https://portal.vacd.biz/api/v1/auth/login'',
         body = JStr ''username=u&password=p'', headers = form_headers\<rparr>,
        \<lparr>meth = ''post'', url = ''https://portal.vacd.biz/api/v1/admin/token'', body = JUndefined,
         headers = [(''X-Auth-Token'', JStr ''A'')]\<rparr>]
   \<and> fst (token [] (snd (authorize (new_client JUndefined JUndefined (Some ''https://portal.vacd.biz'') None None JUndefined)
          \<lparr>transport = (\<lambda>h r. if h = [] then Inr (JObj 10 [(''data'', JObj 11 [(''authToken'', JStr ''A'')])])
                                else Inr (JObj 12 [(''data'', JStr ''T'')])),
           rc_login = (\<lambda>a s. Inr s)\<rparr>
          [JObj 1 [(''username'', JStr ''u''), (''password'', JStr ''p'')]]
          \<lparr>token_store = JUndefined, emitted = [], sent = [], rc_session = JUndefined, next_ref = 2\<rparr>)))
     = JObj 2 [(''authToken'', JStr ''A''), (''apiToken'', JStr ''T'')]
   \<and> fst (authorize (new_client JUndefined JUndefined (Some ''https://portal.vacd.biz'') None None JUndefined)
          \<lparr>transport = (\<lambda>h r. if h = [] then Inr (JObj 10 [(''data'', JObj 11 [(''authToken'', JStr ''A'')])])
                                else Inl (JObj 13 [(''response'', JObj 14 [(''status'', JNum 401)])])),
           rc_login = (\<lambda>a s. Inr s)\<rparr>
          [JObj 1 [(''username'', JStr ''u''), (''password'', JStr ''p'')]]
          \<lparr>token_store = JUndefined, emitted = [], sent = [], rc_session = JUndefined, next_ref = 2\<rparr>)
     = Inl (HTTPError (JNum 401) JUndefined JUndefined JUndefined)
   \<and> token_store (snd (authorize (new_client JUndefined JUndefined (Some ''https://portal.vacd.biz'') None None JUndefined)
          \<lparr>transport = (\<lambda>h r. if h = [] then Inr (JObj 10 [(''data'', JObj 11 [(''authToken'', JStr ''A'')])])
                                else Inl (JObj 13 [(''response'', JObj 14 [(''status'', JNum 401)])])),
           rc_login = (\<lambda>a s. Inr s)\<rparr>
          [JObj 1 [(''username'', JStr ''u''), (''password'', JStr ''p'')]]
          \<lparr>token_store = JUndefined, emitted = [], sent = [], rc_session = JUndefined, next_ref = 2\<rparr>))
     = JUndefined
   \<and> fst (authorize (new_client JUndefined JUndefined (Some ''https://portal.vacd.biz'') None None JUndefined)
          \<lparr>transport = (\<lambda>h r. Inl (JObj 13 [(''code'', JStr ''ECONNRESET'')])),
           rc_login = (\<lambda>a s. Inr s)\<rparr>
          [JObj 1 [(''username'', JStr ''u''), (''password'', JStr ''p'')]]
          \<lparr>token_store = JUndefined, emitted = [], sent = [], rc_session = JUndefined, next_ref = 2\<rparr>)
     = Inl (Thrown (JObj 13 [(''code'', JStr ''ECONNRESET'')]))"
proof -
  let ?srv = "''https://portal.vacd.biz''"
  let ?c = "new_client JUndefined JUndefined (Some ?srv) None None JUndefined"
  let ?res = "JObj 10 [(''data'', JObj 11 [(''authToken'', JStr ''A'')])]"
  let ?res1 = "JObj 12 [(''data'', JStr ''T'')]"
  let ?e = "JObj 13 [(''response'', JObj 14 [(''status'', JNum 401)])]"
  let ?reset = "JObj 13 [(''code'', JStr ''ECONNRESET'')]"
  let ?ok = "\<lparr>transport = (\<lambda>h r. if h = [] then Inr ?res else Inr ?res1), rc_login = (\<lambda>a s. Inr s)\<rparr>"
  let ?ko = "\<lparr>transport = (\<lambda>h r. if h = [] then Inr ?res else Inl ?e), rc_login = (\<lambda>a s. Inr s)\<rparr>"
  let ?net = "\<lparr>transport = (\<lambda>h r. Inl ?reset), rc_login = (\<lambda>a s. Inr s)\<rparr>"
  let ?cred = "JObj 1 [(''username'', JStr ''u''), (''password'', JStr ''p'')]"
  let ?w = "\<lparr>token_store = JUndefined, emitted = [], sent = [], rc_session = JUndefined, next_ref = 2\<rparr>"
  let ?req1 = "\<lparr>meth = ''post'', url = ''https://portal.vacd.biz/api/v1/auth/login'',
         body = JStr ''username=u&password=p'', headers = form_headers\<rparr>"
  let ?req2 = "\<lparr>meth = ''post'', url = ''https://portal.vacd.biz/api/v1/admin/token'', body = JUndefined,
         headers = [(''X-Auth-Token'', JStr ''A'')]\<rparr>"
  have leg: "isLegacyServer ?srv" by (simp add: isLegacyServer_def LEGACY_SERVERS_def)
  have usr: "get_prop ?cred ''username'' = Inr (JStr ''u'')" by (simp add: lookup_def)
  have pwd: "get_prop ?cred ''password'' = Inr (JStr ''p'')" by (simp add: lookup_def)
  have r1: "?req1 = \<lparr>meth = ''post'', url = ?srv @ ''/api/v1/auth/login'',
                       body = JStr (''username='' @ ''u'' @ ''&password='' @ ''p''),
                       headers = form_headers\<rparr>" by simp
  have r2: "?req2 = \<lparr>meth = ''post'', url = ?srv @ ''/api/v1/admin/token'', body = JUndefined,
                       headers = [(''X-Auth-Token'', JStr ''A'')]\<rparr>" by simp
  have hc: "?c = new_client JUndefined JUndefined (Some ?srv) None None JUndefined" by simp
  note th = legacy_authorize [OF leg hc usr pwd r1 r2 refl,
      where res = ?res and j = 11 and fs = "[(''authToken'', JStr ''A'')]"]
  from th [where co = ?ok and w = ?w and res_token = ?res1 and tok = "JStr ''T''"]
  have a: "fst (authorize ?c ?ok [?cred] ?w) = Inr JUndefined
     \<and> sent (snd (authorize ?c ?ok [?cred] ?w)) = [?req1, ?req2]
     \<and> fst (token [] (snd (authorize ?c ?ok [?cred] ?w)))
         = JObj 2 [(''authToken'', JStr ''A''), (''apiToken'', JStr ''T'')]"
    by (simp add: lookup_def)
  from th [where co = ?ko and w = ?w and e = ?e]
  have b: "fst (authorize ?c ?ko [?cred] ?w) = Inl (HTTPError (JNum 401) JUndefined JUndefined JUndefined)
     \<and> token_store (snd (authorize ?c ?ko [?cred] ?w)) = JUndefined"
    by (simp add: lookup_def classify_def new_HTTPError_def message_def JSON_stringify_def)
  have k0: "classify ?reset = Thrown ?reset" by (simp add: lookup_def classify_def)
  from th [where co = ?net and w = ?w and e = ?reset]
  have c': "fst (authorize ?c ?net [?cred] ?w) = Inl (classify ?reset)"
    by simp
  have c: "fst (authorize ?c ?net [?cred] ?w) = Inl (Thrown ?reset)"
    using c' k0 by simp
  from a b c show ?thesis by simp
qed

section \<open>Properties of the URI library model\<close>

subsection \<open>Splitting at a character\<close>

lemma before_append: "d \<notin> set a \<Longrightarrow> before d (a @ d # b) = a"
  unfolding before_def by (induction a) auto

lemma after_append: "d \<notin> set a \<Longrightarrow> after d (a @ d # b) = b"
  unfolding after_def by (induction a) auto

lemma before_absent: "d \<notin> set a \<Longrightarrow> before d a = a"
  unfolding before_def by (induction a) auto

lemma after_absent: "d \<notin> set a \<Longrightarrow> after d a = []"
  unfolding after_def by (induction a) auto

lemma dropWhile_append_sep: "d \<notin> set a \<Longrightarrow> dropWhile (\<lambda>c. c \<noteq> d) (a @ d # b) = d # b"
  by (induction a) auto

lemma dropWhile_absent: "d \<notin> set a \<Longrightarrow> dropWhile (\<lambda>c. c \<noteq> d) a = []"
  by (induction a) auto

subsection \<open>Character classes\<close>

lemma unreserved_not_sep:
  "unreserved c \<Longrightarrow> c \<noteq> CHR ''/'' \<and> c \<noteq> CHR '':'' \<and> c \<noteq> CHR ''?'' \<and> c \<noteq> CHR ''#''"
  by (auto simp add: unreserved_def is_alpha_def is_digit_def)

lemma path_char_not_sep: "path_char c \<Longrightarrow> c \<noteq> CHR '':'' \<and> c \<noteq> CHR ''?'' \<and> c \<noteq> CHR ''#''"
  by (auto simp add: path_char_def dest: unreserved_not_sep)

lemma query_char_not_sep: "query_char c \<Longrightarrow> c \<noteq> CHR '':'' \<and> c \<noteq> CHR ''?'' \<and> c \<noteq> CHR ''#''"
  by (auto simp add: query_char_def dest: path_char_not_sep)

lemma is_digit_not_sep:
  "is_digit c \<Longrightarrow> c \<noteq> CHR ''/'' \<and> c \<noteq> CHR '':'' \<and> c \<noteq> CHR ''?'' \<and> c \<noteq> CHR ''#''"
  by (auto simp add: is_digit_def)

lemma is_digit_path_char: "is_digit c \<Longrightarrow> path_char c"
  by (simp add: path_char_def unreserved_def)

lemma unreserved_path_char: "unreserved c \<Longrightarrow> path_char c"
  by (simp add: path_char_def)

lemma list_all_absent: "list_all P xs \<Longrightarrow> \<not> P d \<Longrightarrow> d \<notin> set xs"
  by (auto simp add: list_all_iff)

lemma valid_protocol_chars:
  "valid_protocol p \<Longrightarrow> p \<noteq> [] \<and> hd p \<noteq> CHR ''/'' \<and> list_all path_char p"
  by (cases p) (auto simp add: valid_protocol_def path_char_def unreserved_def list_all_iff is_alpha_def)

subsection \<open>Parsing an authority\<close>

lemma valid_port_chars: "valid_port p \<Longrightarrow> p \<noteq> [] \<and> CHR ''/'' \<notin> set p \<and> CHR '':'' \<notin> set p"
  unfolding valid_port_def list_all_iff using is_digit_not_sep by blast

lemma dropWhile_starts: "dropWhile (\<lambda>c. c \<noteq> d) s \<noteq> [] \<Longrightarrow> take 1 (dropWhile (\<lambda>c. c \<noteq> d) s) = [d]"
  by (induction s) auto

lemma parse_authority_wf:
  assumes "parse_authority s = Some (h, po, pa)"
  shows "h \<noteq> [] \<and> list_all unreserved h
         \<and> (case po of None \<Rightarrow> True | Some p \<Rightarrow> valid_port p) \<and> take 1 pa = ''/''"
proof -
  define auth where "auth = before CHR ''/'' s"
  define rest where "rest = dropWhile (\<lambda>c. c \<noteq> CHR ''/'') s"
  have pa_eq: "parse_authority s =
      (if before CHR '':'' auth = [] \<or> \<not> list_all unreserved (before CHR '':'' auth) then None
       else if after CHR '':'' auth \<noteq> [] \<and> \<not> valid_port (after CHR '':'' auth) then None
       else Some (before CHR '':'' auth, or_null (after CHR '':'' auth),
                  if rest = [] then ''/'' else rest))"
    by (simp only: parse_authority_def Let_def auth_def rest_def)
  from assms pa_eq have c1: "before CHR '':'' auth \<noteq> []" "list_all unreserved (before CHR '':'' auth)"
    by (simp_all split: if_splits)
  from assms pa_eq c1 have c2: "after CHR '':'' auth = [] \<or> valid_port (after CHR '':'' auth)"
    by (simp split: if_splits)
  from assms pa_eq c1 c2 have eqs: "h = before CHR '':'' auth" "po = or_null (after CHR '':'' auth)"
      "pa = (if rest = [] then ''/'' else rest)"
    by (auto split: if_splits)
  have p: "case po of None \<Rightarrow> True | Some p \<Rightarrow> valid_port p"
    using c2 eqs(2) by (auto simp add: or_null_def)
  have "take 1 pa = ''/''"
    using eqs(3) dropWhile_starts [of "CHR ''/''" s] by (simp add: rest_def)
  with c1 eqs(1) p show ?thesis by simp
qed

lemma parse_authority_eq:
  "parse_authority s =
      (if before CHR '':'' (before CHR ''/'' s) = []
          \<or> \<not> list_all unreserved (before CHR '':'' (before CHR ''/'' s)) then None
       else if after CHR '':'' (before CHR ''/'' s) \<noteq> []
          \<and> \<not> valid_port (after CHR '':'' (before CHR ''/'' s)) then None
       else Some (before CHR '':'' (before CHR ''/'' s), or_null (after CHR '':'' (before CHR ''/'' s)),
                  if dropWhile (\<lambda>c. c \<noteq> CHR ''/'') s = [] then ''/''
                  else dropWhile (\<lambda>c. c \<noteq> CHR ''/'') s))"
  by (simp only: parse_authority_def Let_def)

lemma parse_authority_build:
  assumes h: "h \<noteq> []" "list_all unreserved h"
    and po: "case po of None \<Rightarrow> True | Some p \<Rightarrow> valid_port p"
  shows "parse_authority (h @ (case po of None \<Rightarrow> [] | Some p \<Rightarrow> CHR '':'' # p) @ CHR ''/'' # r)
           = Some (h, po, CHR ''/'' # r)"
proof -
  have hs: "CHR ''/'' \<notin> set h" "CHR '':'' \<notin> set h"
    using h(2) unreserved_not_sep unfolding list_all_iff by blast+
  show ?thesis
  proof (cases po)
    case None
    have b: "before CHR ''/'' (h @ CHR ''/'' # r) = h" using hs(1) by (rule before_append)
    have d: "dropWhile (\<lambda>c. c \<noteq> CHR ''/'') (h @ CHR ''/'' # r) = CHR ''/'' # r"
      using hs(1) by (rule dropWhile_append_sep)
    have bh: "before CHR '':'' h = h" using hs(2) by (rule before_absent)
    have ah: "after CHR '':'' h = []" using hs(2) by (rule after_absent)
    have "parse_authority (h @ CHR ''/'' # r) = Some (h, None, CHR ''/'' # r)"
      unfolding parse_authority_eq b d bh ah using h by (simp add: or_null_def)
    then show ?thesis using None by simp
  next
    case (Some p)
    with po have vp: "valid_port p" by simp
    then have ps: "p \<noteq> []" "CHR ''/'' \<notin> set p" "CHR '':'' \<notin> set p"
      using valid_port_chars by blast+
    have n: "CHR ''/'' \<notin> set (h @ CHR '':'' # p)" using hs ps by simp
    have b: "before CHR ''/'' ((h @ CHR '':'' # p) @ CHR ''/'' # r) = h @ CHR '':'' # p"
      using n by (rule before_append)
    have d: "dropWhile (\<lambda>c. c \<noteq> CHR ''/'') ((h @ CHR '':'' # p) @ CHR ''/'' # r) = CHR ''/'' # r"
      using n by (rule dropWhile_append_sep)
    have bh: "before CHR '':'' (h @ CHR '':'' # p) = h" using hs(2) by (rule before_append)
    have ah: "after CHR '':'' (h @ CHR '':'' # p) = p" using hs(2) by (rule after_append)
    have "parse_authority ((h @ CHR '':'' # p) @ CHR ''/'' # r) = Some (h, Some p, CHR ''/'' # r)"
      unfolding parse_authority_eq b d bh ah using h vp ps(1) by (simp add: or_null_def)
    then show ?thesis using Some by simp
  qed
qed

subsection \<open>Parsed URIs are well formed\<close>

lemma parse_hier_wf:
  assumes p: "parse_hier s q f = Some x"
    and q: "case q of None \<Rightarrow> True | Some a \<Rightarrow> a \<noteq> [] \<and> list_all query_char a"
    and f: "case f of None \<Rightarrow> True | Some a \<Rightarrow> a \<noteq> [] \<and> list_all query_char a"
  shows "wf_uri x"
proof (cases "take 2 s = ''//''")
  case True
  with p obtain h po pa where a: "parse_authority (drop 2 s) = Some (h, po, pa)"
    and c: "list_all path_char pa"
    and x: "x = \<lparr>protocol = None, hostname = Some h, port = po, path = pa, query = q, fragment = f\<rparr>"
    by (auto simp add: parse_hier_def split: option.splits if_splits)
  from parse_authority_wf [OF a] c x q f show ?thesis by (simp add: wf_uri_def)
next
  case False
  show ?thesis
  proof (cases "CHR '':'' \<in> set s")
    case True
    with p False obtain h po pa where a: "parse_authority (drop 2 (after CHR '':'' s)) = Some (h, po, pa)"
      and c: "list_all path_char pa" and v: "valid_protocol (before CHR '':'' s)"
      and x: "x = \<lparr>protocol = Some (before CHR '':'' s), hostname = Some h, port = po, path = pa,
                   query = q, fragment = f\<rparr>"
      by (auto simp add: parse_hier_def split: option.splits if_splits)
    from parse_authority_wf [OF a] c v x q f show ?thesis by (simp add: wf_uri_def)
  next
    case no_colon: False
    with p False have c: "list_all path_char s"
      and x: "x = \<lparr>protocol = None, hostname = None, port = None, path = s, query = q, fragment = f\<rparr>"
      by (auto simp add: parse_hier_def split: if_splits)
    from c x q f False show ?thesis by (simp add: wf_uri_def)
  qed
qed

lemma or_null_wf:
  "list_all query_char a \<Longrightarrow>
   (case or_null a of None \<Rightarrow> True | Some b \<Rightarrow> b \<noteq> [] \<and> list_all query_char b)"
  by (simp add: or_null_def)

lemma parse_uri_wf:
  assumes "parse_uri s = Some x"
  shows "wf_uri x"
proof -
  let ?s1 = "before CHR ''#'' s"
  from assms have qc: "list_all query_char (after CHR ''#'' s)" "list_all query_char (after CHR ''?'' ?s1)"
    and h: "parse_hier (before CHR ''?'' ?s1) (or_null (after CHR ''?'' ?s1))
             (or_null (after CHR ''#'' s)) = Some x"
    by (simp_all add: parse_uri_def Let_def split: if_splits)
  from parse_hier_wf [OF h or_null_wf [OF qc(2)] or_null_wf [OF qc(1)]] show ?thesis .
qed

subsection \<open>Parsing what was built\<close>

lemma build_split:
  "build x = hier x
     @ (case query x of None \<Rightarrow> [] | Some q \<Rightarrow> if q = [] then [] else CHR ''?'' # q)
     @ (case fragment x of None \<Rightarrow> [] | Some f \<Rightarrow> if f = [] then [] else CHR ''#'' # f)"
  by (simp add: build_def hier_def Let_def)

lemma hier_relative:
  "hostname x = None \<Longrightarrow> protocol x = None \<Longrightarrow> hier x = path x"
  by (simp add: build_def hier_def Let_def)

lemma hier_absolute:
  assumes "hostname x = Some h" "h \<noteq> []" "path x = [] \<or> take 1 (path x) = ''/''"
    and "case protocol x of None \<Rightarrow> True | Some p \<Rightarrow> p \<noteq> []"
    and "case port x of None \<Rightarrow> True | Some p \<Rightarrow> p \<noteq> []"
  shows "hier x = (case protocol x of None \<Rightarrow> [] | Some p \<Rightarrow> p @ '':'') @ ''//''
                  @ h @ (case port x of None \<Rightarrow> [] | Some p \<Rightarrow> CHR '':'' # p)
                  @ (if path x = [] then ''/'' else path x)"
  using assms by (auto simp add: build_def hier_def Let_def split: option.splits)

lemma parse_hier_relative:
  assumes "list_all path_char s" "take 2 s \<noteq> ''//''"
  shows "parse_hier s q f =
           Some \<lparr>protocol = None, hostname = None, port = None, path = s, query = q, fragment = f\<rparr>"
proof -
  have "CHR '':'' \<notin> set s"
    using assms(1) path_char_not_sep unfolding list_all_iff by blast
  with assms show ?thesis by (simp add: parse_hier_def)
qed

lemma parse_hier_scheme_relative:
  assumes "parse_authority a = Some (h, po, pa)" "list_all path_char pa"
  shows "parse_hier (''//'' @ a) q f =
           Some \<lparr>protocol = None, hostname = Some h, port = po, path = pa, query = q, fragment = f\<rparr>"
  using assms by (simp add: parse_hier_def)

lemma parse_hier_absolute:
  assumes v: "valid_protocol p" and a: "parse_authority a = Some (h, po, pa)"
    and c: "list_all path_char pa"
  shows "parse_hier (p @ '':'' @ ''//'' @ a) q f =
           Some \<lparr>protocol = Some p, hostname = Some h, port = po, path = pa, query = q, fragment = f\<rparr>"
proof -
  from valid_protocol_chars [OF v] have pn: "p \<noteq> []" "hd p \<noteq> CHR ''/''" "list_all path_char p"
    by simp_all
  have nc: "CHR '':'' \<notin> set p"
    using pn(3) path_char_not_sep unfolding list_all_iff by blast
  have t: "take 2 (p @ CHR '':'' # ''//'' @ a) \<noteq> ''//''"
    using pn(1,2) by (cases p) auto
  have b: "before CHR '':'' (p @ CHR '':'' # ''//'' @ a) = p" using nc by (rule before_append)
  have af: "after CHR '':'' (p @ CHR '':'' # ''//'' @ a) = ''//'' @ a" using nc by (rule after_append)
  have m: "CHR '':'' \<in> set (p @ CHR '':'' # ''//'' @ a)" by simp
  have "parse_hier (p @ CHR '':'' # ''//'' @ a) q f =
           Some \<lparr>protocol = Some p, hostname = Some h, port = po, path = pa, query = q, fragment = f\<rparr>"
    unfolding parse_hier_def b af using t m v a c by simp
  then show ?thesis by simp
qed

lemma valid_port_path_char: "valid_port p \<Longrightarrow> list_all path_char p"
  unfolding valid_port_def list_all_iff using is_digit_path_char by blast

lemma hier_chars:
  assumes "wf_uri x"
  shows "list_all (\<lambda>c. path_char c \<or> c = CHR '':'') (hier x)"
proof (cases "hostname x")
  case None
  with assms have "protocol x = None" "list_all path_char (path x)" by (simp_all add: wf_uri_def)
  with None show ?thesis by (simp add: hier_relative list_all_iff)
next
  case (Some h)
  with assms have h: "h \<noteq> []" "list_all unreserved h"
    and pr: "case protocol x of None \<Rightarrow> True | Some p \<Rightarrow> valid_protocol p"
    and po: "case port x of None \<Rightarrow> True | Some p \<Rightarrow> valid_port p"
    and pa: "path x = [] \<or> take 1 (path x) = ''/''" "list_all path_char (path x)"
    by (simp_all add: wf_uri_def)
  have pr': "case protocol x of None \<Rightarrow> True | Some p \<Rightarrow> p \<noteq> []"
    using pr valid_protocol_chars by (auto split: option.splits)
  have po': "case port x of None \<Rightarrow> True | Some p \<Rightarrow> p \<noteq> []"
    using po valid_port_chars by (auto split: option.splits)
  have c1: "list_all path_char (case protocol x of None \<Rightarrow> [] | Some p \<Rightarrow> p)"
    using pr valid_protocol_chars by (auto split: option.splits)
  have c2: "list_all path_char (case port x of None \<Rightarrow> [] | Some p \<Rightarrow> p)"
    using po valid_port_path_char by (auto split: option.splits)
  have c3: "list_all path_char h"
    using h(2) unreserved_path_char unfolding list_all_iff by blast
  have sl: "path_char CHR ''/''" by (simp add: path_char_def)
  show ?thesis
    unfolding hier_absolute [OF Some h(1) pa(1) pr' po']
    using c1 c2 c3 pa(2) sl by (auto simp add: list_all_iff split: option.splits)
qed

lemma hier_no_sep: "wf_uri x \<Longrightarrow> CHR ''?'' \<notin> set (hier x) \<and> CHR ''#'' \<notin> set (hier x)"
  using hier_chars [of x] path_char_not_sep unfolding list_all_iff by blast

lemma parse_hier_build:
  assumes w: "wf_uri x"
  shows "parse_hier (hier x) q f = Some ((canonical x)\<lparr>query := q, fragment := f\<rparr>)"
proof (cases "hostname x")
  case None
  with w have a: "protocol x = None" "port x = None" "take 2 (path x) \<noteq> ''//''"
      "list_all path_char (path x)"
    by (simp_all add: wf_uri_def)
  have "parse_hier (path x) q f =
      Some \<lparr>protocol = None, hostname = None, port = None, path = path x, query = q, fragment = f\<rparr>"
    using a(4) a(3) by (rule parse_hier_relative)
  then show ?thesis using None a by (cases x) (simp add: hier_relative canonical_def)
next
  case (Some h)
  with w have h: "h \<noteq> []" "list_all unreserved h"
    and pr: "case protocol x of None \<Rightarrow> True | Some p \<Rightarrow> valid_protocol p"
    and po: "case port x of None \<Rightarrow> True | Some p \<Rightarrow> valid_port p"
    and pa: "path x = [] \<or> take 1 (path x) = ''/''" "list_all path_char (path x)"
    by (simp_all add: wf_uri_def)
  have pr': "case protocol x of None \<Rightarrow> True | Some p \<Rightarrow> p \<noteq> []"
    using pr valid_protocol_chars by (auto split: option.splits)
  have po': "case port x of None \<Rightarrow> True | Some p \<Rightarrow> p \<noteq> []"
    using po valid_port_chars by (auto split: option.splits)
  define pa' where "pa' = (if path x = [] then ''/'' else path x)"
  obtain r where r: "pa' = CHR ''/'' # r"
    using pa(1) unfolding pa'_def by (cases "path x") auto
  have c: "list_all path_char pa'" using pa(2) by (simp add: pa'_def path_char_def)
  have au: "parse_authority (h @ (case port x of None \<Rightarrow> [] | Some p \<Rightarrow> CHR '':'' # p) @ pa')
              = Some (h, port x, pa')"
    unfolding r using h po by (rule parse_authority_build)
  have hi: "hier x = (case protocol x of None \<Rightarrow> [] | Some p \<Rightarrow> p @ '':'') @ ''//''
                  @ h @ (case port x of None \<Rightarrow> [] | Some p \<Rightarrow> CHR '':'' # p) @ pa'"
    unfolding pa'_def using Some h(1) pa(1) pr' po' by (rule hier_absolute)
  have cx: "(canonical x)\<lparr>query := q, fragment := f\<rparr>
      = \<lparr>protocol = protocol x, hostname = Some h, port = port x, path = pa', query = q, fragment = f\<rparr>"
    using Some by (cases x) (simp add: canonical_def pa'_def)
  show ?thesis
  proof (cases "protocol x")
    case None
    from parse_hier_scheme_relative [OF au c, of q f] show ?thesis
      using None hi cx by simp
  next
    case (Some p)
    with pr have "valid_protocol p" by simp
    from parse_hier_absolute [OF this au c, of q f] show ?thesis
      using Some hi cx by simp
  qed
qed

lemma parse_uri_build:
  assumes w: "wf_uri x"
  shows "parse_uri (build x) = Some (canonical x)"
proof -
  from w have q: "case query x of None \<Rightarrow> True | Some a \<Rightarrow> a \<noteq> [] \<and> list_all query_char a"
    and f: "case fragment x of None \<Rightarrow> True | Some a \<Rightarrow> a \<noteq> [] \<and> list_all query_char a"
    by (simp_all add: wf_uri_def)
  define Q where "Q = (case query x of None \<Rightarrow> [] | Some a \<Rightarrow> a)"
  define F where "F = (case fragment x of None \<Rightarrow> [] | Some a \<Rightarrow> a)"
  define s1 where "s1 = hier x @ (if Q = [] then [] else CHR ''?'' # Q)"
  have b: "build x = s1 @ (if F = [] then [] else CHR ''#'' # F)"
    using q f by (simp add: build_split s1_def Q_def F_def split: option.splits)
  have Qc: "list_all query_char Q" using q by (simp add: Q_def split: option.splits)
  have Fc: "list_all query_char F" using f by (simp add: F_def split: option.splits)
  have Qn: "or_null Q = query x" using q by (simp add: Q_def or_null_def split: option.splits)
  have Fn: "or_null F = fragment x" using f by (simp add: F_def or_null_def split: option.splits)
  have hq: "CHR ''#'' \<notin> set Q" "CHR ''?'' \<notin> set Q"
    using Qc query_char_not_sep unfolding list_all_iff by blast+
  have hs: "CHR ''#'' \<notin> set s1" using hier_no_sep [OF w] hq by (simp add: s1_def)
  have bf: "before CHR ''#'' (build x) = s1" "after CHR ''#'' (build x) = F"
    unfolding b using hs by (simp_all add: before_append after_append before_absent after_absent)
  have hh: "CHR ''?'' \<notin> set (hier x)" using hier_no_sep [OF w] by simp
  have bq: "before CHR ''?'' s1 = hier x" "after CHR ''?'' s1 = Q"
    unfolding s1_def using hh by (simp_all add: before_append after_append before_absent after_absent)
  have "parse_uri (build x) = parse_hier (hier x) (query x) (fragment x)"
    unfolding parse_uri_def Let_def bf bq Qn Fn using Qc Fc by simp
  also have "\<dots> = Some ((canonical x)\<lparr>query := query x, fragment := fragment x\<rparr>)"
    using w by (rule parse_hier_build)
  also have "(canonical x)\<lparr>query := query x, fragment := fragment x\<rparr> = canonical x"
    by (simp add: canonical_def)
  finally show ?thesis .
qed

lemma build_canonical: "wf_uri x \<Longrightarrow> build (canonical x) = build x"
  by (cases "hostname x") (auto simp add: build_def canonical_def Let_def wf_uri_def)

lemma hostname_canonical: "hostname (canonical x) = hostname x"
  by (simp add: canonical_def)

lemma parse_hier_path_nonempty:
  assumes "parse_hier s q f = Some x" and "hostname x \<noteq> None"
  shows "path x \<noteq> []"
proof -
  have a: "False" if "parse_authority t = Some (h, po, [])" for t h po
    using parse_authority_wf [OF that] by simp
  from assms show ?thesis
    by (auto simp add: parse_hier_def split: if_splits option.splits) (use a in blast)+
qed

lemma parse_uri_canonical:
  assumes "parse_uri s = Some x"
  shows "canonical x = x"
proof (cases "hostname x")
  case None
  then show ?thesis by (simp add: canonical_def)
next
  case (Some h)
  from assms have "parse_hier (before CHR ''?'' (before CHR ''#'' s))
       (or_null (after CHR ''?'' (before CHR ''#'' s))) (or_null (after CHR ''#'' s)) = Some x"
    by (simp add: parse_uri_def Let_def split: if_splits)
  from parse_hier_path_nonempty [OF this] Some show ?thesis by (simp add: canonical_def)
qed

subsection \<open>Joining paths\<close>

lemma split_on_nonempty: "split_on d s \<noteq> []"
  by (induction s) (auto split: list.splits)

lemma split_on_no_sep: "seg \<in> set (split_on d s) \<Longrightarrow> d \<notin> set seg"
proof (induction s arbitrary: seg)
  case Nil
  then show ?case by simp
next
  case (Cons c cs)
  show ?case
  proof (cases "c = d")
    case True
    with Cons show ?thesis by auto
  next
    case False
    obtain x xs where sp: "split_on d cs = x # xs"
      using split_on_nonempty [of d cs] by (cases "split_on d cs") auto
    with Cons False show ?thesis by auto
  qed
qed

lemma segments_no_sep: "seg \<in> set (segments u) \<Longrightarrow> CHR ''/'' \<notin> set seg"
  unfolding segments_def Let_def
  using split_on_no_sep [of seg "CHR ''/''" "uri_path u"] list.set_sel(2) [of "split_on CHR ''/'' (uri_path u)" seg]
  by (cases "split_on CHR ''/'' (uri_path u)") (auto split: if_splits)

lemma collapse_subset: "set (collapse acc vs) \<subseteq> set acc \<union> set vs"
proof (induction vs arbitrary: acc)
  case Nil
  then show ?case by simp
next
  case (Cons v vs)
  have b: "set (butlast acc) \<subseteq> set acc" by (meson in_set_butlastD subsetI)
  show ?case using Cons [of acc] Cons [of "acc @ [v]"] Cons [of "butlast acc @ [v]"] b
    by auto
qed

lemma collapse_head:
  "acc = [] \<or> hd acc \<noteq> [] \<Longrightarrow> acc \<noteq> [] \<or> list_ex (\<lambda>s. s \<noteq> []) vs \<Longrightarrow>
   collapse acc vs \<noteq> [] \<and> hd (collapse acc vs) \<noteq> []"
proof (induction vs arbitrary: acc)
  case Nil
  then show ?case by simp
next
  case (Cons v vs)
  show ?case
  proof (cases "v = [] \<and> (acc = [] \<or> last acc = [])")
    case True
    then have "collapse acc (v # vs) = collapse acc vs" by simp
    moreover have "acc \<noteq> [] \<or> list_ex (\<lambda>s. s \<noteq> []) vs" using Cons.prems(2) True by auto
    ultimately show ?thesis using Cons.IH [OF Cons.prems(1)] by simp
  next
    case False
    define acc' where "acc' = (if acc \<noteq> [] \<and> last acc = [] then butlast acc else acc) @ [v]"
    have c: "collapse acc (v # vs) = collapse acc' vs" using False by (auto simp add: acc'_def)
    have ne: "acc' \<noteq> []" by (simp add: acc'_def)
    have hd': "hd acc' \<noteq> []"
    proof (cases "acc = []")
      case True
      with False show ?thesis by (simp add: acc'_def)
    next
      case nonempty: False
      with Cons.prems(1) have h: "hd acc \<noteq> []" by simp
      show ?thesis
      proof (cases "last acc = []")
        case True
        with h nonempty have "butlast acc \<noteq> []"
          by (cases acc) (auto split: if_splits)
        then have "hd (butlast acc @ [v]) = hd acc"
          by (cases acc) (auto split: if_splits)
        with True nonempty h show ?thesis by (simp add: acc'_def)
      next
        case False
        with nonempty h show ?thesis by (simp add: acc'_def)
      qed
    qed
    from Cons.IH [of acc'] ne hd' c show ?thesis by simp
  qed
qed

lemma join_with_head: "c \<noteq> [] \<Longrightarrow> hd c \<noteq> [] \<Longrightarrow> join_with d c \<noteq> [] \<and> hd (join_with d c) = hd (hd c)"
  by (induction d c rule: join_with.induct) auto

lemma build_path_only: "path_only u \<Longrightarrow> build u = path u"
  by (simp add: path_only_def build_def Let_def)

lemma uri_path_path_only: "path_only u \<Longrightarrow> uri_path u = path u"
  by (simp add: path_only_def uri_path_def uri_hostname_def)

lemma set_path_path_only: "path_only u \<Longrightarrow> set_path u v = Some u' \<Longrightarrow> path_only u'"
  by (auto simp add: set_path_def path_only_def split: if_splits)

lemma set_path_nonempty: "v \<noteq> [] \<Longrightarrow> set_path u v = Some u' \<Longrightarrow> path u' = v"
  by (auto simp add: set_path_def split: if_splits)

lemma joinPaths_shape:
  assumes "joinPaths a b = Some pj"
  shows "path_only pj
         \<and> (path pj = []
            \<or> (if uri_path a = [] \<or> take 1 (uri_path a) = ''/''
                then take 1 (path pj) = ''/'' \<and> take 2 (path pj) \<noteq> ''//''
                else take 1 (path pj) \<noteq> ''/''))"
proof (cases "segments a @ segments b = [] \<or> \<not> list_ex (\<lambda>s. s \<noteq> []) (segments a @ segments b)")
  case True
  with assms have "pj = empty_uri" by (simp add: joinPaths_def Let_def)
  then show ?thesis by (simp add: empty_uri_def path_only_def)
next
  case False
  define segs where "segs = segments a @ segments b"
  define c where "c = collapse [] segs"
  define j where "j = join_with CHR ''/'' c"
  from False have ex: "list_ex (\<lambda>s. s \<noteq> []) segs" by (simp add: segs_def)
  from collapse_head [of "[]" segs] ex have cn: "c \<noteq> []" "hd c \<noteq> []" by (simp_all add: c_def)
  from join_with_head [OF cn] have jn: "j \<noteq> []" "hd j = hd (hd c)" by (simp_all add: j_def)
  have "hd c \<in> set segs" using cn(1) collapse_subset [of "[]" segs] by (auto simp add: c_def)
  then have "CHR ''/'' \<notin> set (hd c)" using segments_no_sep by (auto simp add: segs_def)
  moreover have "hd (hd c) \<in> set (hd c)" using cn(2) by simp
  ultimately have hj: "hd j \<noteq> CHR ''/''" using jn(2) by auto
  from assms False obtain u where u: "set_path empty_uri j = Some u"
    and r: "(if uri_path a = [] \<or> take 1 (uri_path a) = ''/''
             then set_path u (CHR ''/'' # uri_path u) else Some u) = Some pj"
    by (auto simp add: joinPaths_def Let_def segs_def c_def j_def split: if_splits option.splits)
  have eo: "path_only empty_uri" by (simp add: empty_uri_def path_only_def)
  have uo: "path_only u" using eo u by (rule set_path_path_only)
  have up: "path u = j" using jn(1) u by (rule set_path_nonempty)
  show ?thesis
  proof (cases "uri_path a = [] \<or> take 1 (uri_path a) = ''/''")
    case True
    with r have s: "set_path u (CHR ''/'' # uri_path u) = Some pj" by simp
    have po: "path_only pj" using uo s by (rule set_path_path_only)
    have "path pj = CHR ''/'' # uri_path u" using s by (auto intro: set_path_nonempty)
    then have "path pj = CHR ''/'' # j" using uo up by (simp add: uri_path_path_only)
    with po True hj jn(1) show ?thesis by (cases j) auto
  next
    case False
    with r have "pj = u" by simp
    with uo up False hj jn(1) show ?thesis by (cases j) auto
  qed
qed

lemma parseUrl_wf:
  assumes "parseUrl srv p = Some z"
  shows "wf_uri z"
proof -
  from assms obtain u pj where u: "parse_uri srv = Some u" and pj: "joinPaths u p = Some pj"
    and c: "list_all path_char (build pj)" and z: "z = u\<lparr>path := build pj\<rparr>"
    by (auto simp add: parseUrl_def split: option.splits if_splits)
  from parse_uri_wf [OF u] have w: "wf_uri u" .
  from joinPaths_shape [OF pj] have po: "path_only pj"
    and sh: "path pj = []
            \<or> (if uri_path u = [] \<or> take 1 (uri_path u) = ''/''
                then take 1 (path pj) = ''/'' \<and> take 2 (path pj) \<noteq> ''//''
                else take 1 (path pj) \<noteq> ''/'')"
    by simp_all
  have b: "build pj = path pj" using po by (rule build_path_only)
  show ?thesis
  proof (cases "hostname u")
    case None
    have "take 2 (path pj) \<noteq> ''//''"
      using sh by (cases "path pj") (auto split: if_splits)
    with w None c b z show ?thesis by (simp add: wf_uri_def)
  next
    case (Some h)
    with w have "path u = [] \<or> take 1 (path u) = ''/''" by (simp add: wf_uri_def)
    then have "take 1 (uri_path u) = ''/''" using Some w
      by (auto simp add: uri_path_def uri_hostname_def wf_uri_def)
    with sh have "path pj = [] \<or> take 1 (path pj) = ''/''" by auto
    with w Some c b z show ?thesis by (simp add: wf_uri_def)
  qed
qed

lemma resolve_wf:
  assumes "resolve srv pfx u = Some r"
  shows "\<exists>z. wf_uri z \<and> r = build z"
proof -
  from assms obtain x where x: "parse_uri u = Some x"
    by (auto simp add: resolve_def split: option.splits)
  show ?thesis
  proof (cases "uri_hostname x = []")
    case True
    with assms x obtain p z where "parseUrl srv p = Some z" "r = build z"
      by (auto simp add: resolve_def Let_def split: option.splits if_splits)
    with parseUrl_wf show ?thesis by blast
  next
    case False
    with assms x have "r = build x" by (simp add: resolve_def)
    with parse_uri_wf [OF x] show ?thesis by blast
  qed
qed

lemma resolve_absolute:
  "parse_uri u = Some x \<Longrightarrow> uri_hostname x \<noteq> [] \<Longrightarrow> resolve srv pfx u = Some (build x)"
  by (simp add: resolve_def)

lemma resolve_idempotent:
  assumes r: "resolve srv pfx u = Some r"
    and y: "parse_uri r = Some y" and h: "uri_hostname y \<noteq> []"
  shows "resolve srv pfx r = Some r"
proof -
  from resolve_wf [OF r] obtain z where z: "wf_uri z" "r = build z" by blast
  from parse_uri_build [OF z(1)] y z(2) have "y = canonical z" by simp
  then have "build y = r" using build_canonical [OF z(1)] z(2) by simp
  with resolve_absolute [OF y h] show ?thesis by simp
qed

section \<open>Properties of the request dispatcher\<close>

lemmas uri_eval = resolve_def parse_uri_def parse_hier_def before_def after_def or_null_def parse_authority_def
  path_char_def query_char_def unreserved_def is_alpha_def is_digit_def valid_protocol_def
  valid_port_def uri_hostname_def uri_path_def joinPaths_def segments_def set_path_def
  empty_uri_def parseUrl_def build_def Let_def

lemma parse_uri_empty: "parse_uri [] = Some empty_uri"
  by (simp add: parse_uri_def parse_hier_def before_def after_def or_null_def empty_uri_def)

lemma resolve_prefixed:
  assumes "parse_uri u = Some x" and "uri_hostname x = []"
    and "prefix pfx u \<or> prefix (CHR ''/'' # pfx) u"
  shows "resolve srv pfx u =
           (case joinPaths empty_uri x of
              None \<Rightarrow> None
            | Some p \<Rightarrow> map_option build (parseUrl srv p))"
  using assms by (auto simp add: resolve_def parse_uri_empty)

text \<open>
  Claim C5. A relative URL (its parsed hostname is empty) that starts with the API prefix,
  with or without a leading \<^verbatim>\<open>/\<close>, resolves to the configured server joined with the URL's
  path alone: the dispatcher joins with the empty prefix, and the result is the one a
  client with an empty API prefix gets. With the prefix \<^verbatim>\<open>voice\<close> and
  each of the three known servers, \<^verbatim>\<open>voice/calls\<close> and \<^verbatim>\<open>/voice/calls\<close> resolve to
  \<^verbatim>\<open>{server}/voice/calls\<close> and not to \<^verbatim>\<open>{server}/voice/voice/calls\<close>.
\<close>

theorem prefix_not_repeated:
  "(parse_uri u = Some x \<and> uri_hostname x = []
      \<and> (prefix pfx u \<or> prefix (CHR ''/'' # pfx) u)
    \<longrightarrow> resolve srv pfx u =
          (case joinPaths empty_uri x of
             None \<Rightarrow> None
           | Some p \<Rightarrow> map_option build (parseUrl srv p))
        \<and> resolve srv pfx u = resolve srv [] u)
   \<and> (s \<in> set (SERVER # LEGACY_SERVERS) \<longrightarrow>
        resolve s ''voice'' ''voice/calls'' = Some (s @ ''/voice/calls'')
        \<and> resolve s ''voice'' ''/voice/calls'' = Some (s @ ''/voice/calls'')
        \<and> resolve s ''voice'' ''voice/calls'' \<noteq> Some (s @ ''/voice/voice/calls'')
        \<and> resolve s ''voice'' ''/voice/calls'' \<noteq> Some (s @ ''/voice/voice/calls''))"
proof -
  have ex: "resolve s ''voice'' ''voice/calls'' = Some (s @ ''/voice/calls'')
        \<and> resolve s ''voice'' ''/voice/calls'' = Some (s @ ''/voice/calls'')"
    if "s \<in> set (SERVER # LEGACY_SERVERS)"
  proof -
    from that consider "s = ''https://engage.ringcentral.com''" | "s = ''https://portal.vacd.biz''"
      | "s = ''https://portal.virtualacd.biz''"
      by (auto simp add: SERVER_def LEGACY_SERVERS_def)
    then show ?thesis
    proof cases
      case 1 then show ?thesis by (simp add: uri_eval)
    next
      case 2 then show ?thesis by (simp add: uri_eval)
    next
      case 3 then show ?thesis by (simp add: uri_eval)
    qed
  qed
  have g: "resolve srv pfx u =
          (case joinPaths empty_uri x of
             None \<Rightarrow> None
           | Some p \<Rightarrow> map_option build (parseUrl srv p))
        \<and> resolve srv pfx u = resolve srv [] u"
    if "parse_uri u = Some x" "uri_hostname x = []" "prefix pfx u \<or> prefix (CHR ''/'' # pfx) u"
    using resolve_prefixed [OF that] resolve_prefixed [OF that(1,2), of "[]" srv] by simp
  from ex g show ?thesis by auto
qed

theorem prefix_not_repeated_witness:
  "resolve ''https://engage.ringcentral.com'' ''voice'' ''/voice/calls/active''
     = Some ''https://engage.ringcentral.com/voice/calls/active''
   \<and> resolve ''https://portal.vacd.biz'' ''voice'' ''voice/calls''
     = Some ''https://portal.vacd.biz/voice/calls''"
proof -
  let ?x = "\<lparr>protocol = None, hostname = None, port = None, path = ''/voice/calls/active'',
             query = None, fragment = None\<rparr>"
  have p: "parse_uri ''/voice/calls/active'' = Some ?x" by (simp add: uri_eval)
  have h: "uri_hostname ?x = []" by (simp add: uri_hostname_def)
  have pre: "prefix (CHR ''/'' # ''voice'') ''/voice/calls/active''" by simp
  have j: "(case joinPaths empty_uri ?x of
             None \<Rightarrow> None
           | Some p \<Rightarrow> map_option build (parseUrl ''https://engage.ringcentral.com'' p))
        = Some ''https://engage.ringcentral.com/voice/calls/active''"
    by (simp add: uri_eval)
  have m: "''https://portal.vacd.biz'' \<in> set (SERVER # LEGACY_SERVERS)"
    by (simp add: LEGACY_SERVERS_def)
  note th = prefix_not_repeated [where u = "''/voice/calls/active''" and x = ?x
      and pfx = "''voice''" and srv = "''https://engage.ringcentral.com''"
      and s = "''https://portal.vacd.biz''"]
  from th p h pre
  have a: "resolve ''https://engage.ringcentral.com'' ''voice'' ''/voice/calls/active'' =
          (case joinPaths empty_uri ?x of
             None \<Rightarrow> None
           | Some p \<Rightarrow> map_option build (parseUrl ''https://engage.ringcentral.com'' p))"
    by blast
  from th m
  have b: "resolve ''https://portal.vacd.biz'' ''voice'' ''voice/calls''
     = Some (''https://portal.vacd.biz'' @ ''/voice/calls'')"
    by blast
  from a b j show ?thesis by simp
qed

text \<open>
  Claim C9. The test is \<^verbatim>\<open>url.startsWith(apiPrefix)\<close> on the whole string: with the prefix
  \<^verbatim>\<open>voice\<close> every relative URL \<^verbatim>\<open>voice...\<close> is joined to the server without the prefix,
  whatever follows the five letters. \<^verbatim>\<open>voicemail/box\<close>, whose first segment is
  \<^verbatim>\<open>voicemail\<close>, resolves to \<^verbatim>\<open>{server}/voicemail/box\<close>, while \<^verbatim>\<open>mail/box\<close> resolves to
  \<^verbatim>\<open>{server}/voice/mail/box\<close>.
\<close>

theorem raw_prefix_test:
  "(parse_uri (''voice'' @ rest) = Some x \<and> uri_hostname x = []
    \<longrightarrow> resolve srv ''voice'' (''voice'' @ rest) =
          (case joinPaths empty_uri x of
             None \<Rightarrow> None
           | Some p \<Rightarrow> map_option build (parseUrl srv p)))
   \<and> map_option segments (parse_uri ''voicemail/box'') = Some [''voicemail'', ''box'']
   \<and> resolve SERVER ''voice'' ''voicemail/box'' = Some (SERVER @ ''/voicemail/box'')
   \<and> resolve SERVER ''voice'' ''mail/box'' = Some (SERVER @ ''/voice/mail/box'')"
proof -
  have "prefix ''voice'' (''voice'' @ rest)" by simp
  then have g: "parse_uri (''voice'' @ rest) = Some x \<and> uri_hostname x = []
    \<longrightarrow> resolve srv ''voice'' (''voice'' @ rest) =
          (case joinPaths empty_uri x of
             None \<Rightarrow> None
           | Some p \<Rightarrow> map_option build (parseUrl srv p))"
    using resolve_prefixed [of "''voice'' @ rest" x "''voice''" srv] by blast
  have e1: "map_option segments (parse_uri ''voicemail/box'') = Some [''voicemail'', ''box'']"
    by (simp add: uri_eval)
  have e2: "resolve SERVER ''voice'' ''voicemail/box'' = Some (SERVER @ ''/voicemail/box'')"
    by (simp add: SERVER_def uri_eval)
  have e3: "resolve SERVER ''voice'' ''mail/box'' = Some (SERVER @ ''/voice/mail/box'')"
    by (simp add: SERVER_def uri_eval)
  from g e1 e2 e3 show ?thesis by blast
qed

theorem raw_prefix_test_witness:
  "resolve ''https://portal.vacd.biz'' ''voice'' ''voices/list''
     = Some ''https://portal.vacd.biz/voices/list''"
proof -
  let ?x = "\<lparr>protocol = None, hostname = None, port = None, path = ''voices/list'',
             query = None, fragment = None\<rparr>"
  have p: "parse_uri (''voice'' @ ''s/list'') = Some ?x" by (simp add: uri_eval)
  have h: "uri_hostname ?x = []" by (simp add: uri_hostname_def)
  have j: "(case joinPaths empty_uri ?x of
             None \<Rightarrow> None
           | Some p \<Rightarrow> map_option build (parseUrl ''https://portal.vacd.biz'' p))
        = Some ''https://portal.vacd.biz/voices/list''"
    by (simp add: uri_eval)
  from raw_prefix_test [where rest = "''s/list''" and x = ?x and srv = "''https://portal.vacd.biz''"]
    p h
  have "resolve ''https://portal.vacd.biz'' ''voice'' (''voice'' @ ''s/list'') =
          (case joinPaths empty_uri ?x of
             None \<Rightarrow> None
           | Some p \<Rightarrow> map_option build (parseUrl ''https://portal.vacd.biz'' p))"
    by blast
  with j show ?thesis by simp
qed

text \<open>
  Claim C8 does not hold of the code. With the bundle \<^verbatim>\<open>{apiToken: 'abc'}\<close> stored,
  \<^verbatim>\<open>revokeLegacyToken\<close> hands \<^verbatim>\<open>delete\<close> the URL \<^verbatim>\<open>/api/v1/admin/token/abc\<close> followed by
  a line break, four blanks and the letter X, which is not the token path and not a plain
  URL of the model. The token path itself, sent through the dispatcher with the default
  prefix, would go to \<^verbatim>\<open>{server}/voice/api/v1/admin/token/abc\<close>. With nothing stored no
  request is made.
\<close>

theorem revoke_url_stray_suffix:
  "revoke_url (JStr ''abc'') = ''/api/v1/admin/token/abc'' @ [CHR 0x0A] @ ''    X''
   \<and> revoke_url (JStr ''abc'') \<noteq> ''/api/v1/admin/token/abc''
   \<and> parse_uri (revoke_url (JStr ''abc'')) = None
   \<and> resolve ''https://portal.vacd.biz'' ''voice'' ''/api/v1/admin/token/abc''
       = Some ''https://portal.vacd.biz/voice/api/v1/admin/token/abc''
   \<and> revokeLegacyToken
        (new_client JUndefined JUndefined (Some ''https://portal.vacd.biz'') None None JUndefined)
        \<lparr>transport = (\<lambda>h r. Inr (JObj 5 [])), rc_login = (\<lambda>a s. Inr s)\<rparr>
        \<lparr>token_store = JUndefined, emitted = [], sent = [], rc_session = JUndefined, next_ref = 0\<rparr>
       = Some (Inr JUndefined,
           \<lparr>token_store = JUndefined, emitted = [], sent = [], rc_session = JUndefined, next_ref = 0\<rparr>)"
  by (simp add: revoke_url_def revokeLegacyToken_def uri_eval)

theorem revoke_url_stray_suffix_witness:
  "revoke_url (JStr ''abc'') \<noteq> ''/api/v1/admin/token/abc''
   \<and> resolve ''https://portal.vacd.biz'' ''voice'' ''/api/v1/admin/token/abc''
       = Some ''https://portal.vacd.biz/voice/api/v1/admin/token/abc''"
  using revoke_url_stray_suffix by blast

lemma resolve_printed:
  assumes w: "wf_uri z" and h: "hostname z \<noteq> None"
  shows "resolve srv pfx (build z) = Some (build z)"
proof -
  have p: "parse_uri (build z) = Some (canonical z)" using w by (rule parse_uri_build)
  from w h have "uri_hostname (canonical z) \<noteq> []"
    by (auto simp add: wf_uri_def uri_hostname_def canonical_def)
  from resolve_absolute [OF p this] build_canonical [OF w] show ?thesis by simp
qed

text \<open>
  Claim C6, as the code has it. A URL with a hostname resolves to the URI library's
  print of its parsed components, whatever the configured server and the API prefix are,
  and that print parses to the same components. A URL that is such a print (of
  well-formed components with a host) is returned unchanged. Resolution is idempotent:
  when the resolution of any URL is a URL with a hostname, resolving it again returns it
  unchanged.
\<close>

theorem absolute_url_resolution:
  "(parse_uri u = Some x \<and> uri_hostname x \<noteq> [] \<longrightarrow>
      resolve srv pfx u = Some (build x) \<and> resolve srv' pfx' u = Some (build x)
      \<and> parse_uri (build x) = Some x)
   \<and> (wf_uri z \<and> hostname z \<noteq> None \<longrightarrow> resolve srv pfx (build z) = Some (build z))
   \<and> (resolve srv pfx v = Some r \<and> parse_uri r = Some y \<and> uri_hostname y \<noteq> [] \<longrightarrow>
      resolve srv pfx r = Some r)"
proof -
  have a: "resolve srv pfx u = Some (build x) \<and> resolve srv' pfx' u = Some (build x)
      \<and> parse_uri (build x) = Some x"
    if p: "parse_uri u = Some x" and h: "uri_hostname x \<noteq> []"
  proof -
    have "parse_uri (build x) = Some (canonical x)"
      using parse_uri_wf [OF p] by (rule parse_uri_build)
    then show ?thesis using resolve_absolute [OF p h] parse_uri_canonical [OF p] by simp
  qed
  have b: "resolve srv pfx r = Some r"
    if "resolve srv pfx v = Some r" "parse_uri r = Some y" "uri_hostname y \<noteq> []"
    using that by (rule resolve_idempotent)
  have c: "resolve srv pfx (build z) = Some (build z)" if "wf_uri z" "hostname z \<noteq> None"
    using that by (rule resolve_printed)
  from a b c show ?thesis by blast
qed

theorem absolute_url_resolution_witness:
  "resolve ''https://portal.vacd.biz'' ''voice'' ''https://example.com:8443/a/b?x=1#top''
     = Some ''https://example.com:8443/a/b?x=1#top''
   \<and> resolve ''https://portal.vacd.biz'' ''voice'' ''https://portal.vacd.biz/voice/calls''
     = Some ''https://portal.vacd.biz/voice/calls''
   \<and> resolve ''https://portal.vacd.biz'' ''voice'' ''//cdn.example.com/x''
     = Some ''//cdn.example.com/x''"
proof -
  let ?x = "\<lparr>protocol = Some ''https'', hostname = Some ''example.com'', port = Some ''8443'',
             path = ''/a/b'', query = Some ''x=1'', fragment = Some ''top''\<rparr>"
  let ?y = "\<lparr>protocol = Some ''https'', hostname = Some ''portal.vacd.biz'', port = None,
             path = ''/voice/calls'', query = None, fragment = None\<rparr>"
  let ?z = "\<lparr>protocol = None, hostname = Some ''cdn.example.com'', port = None,
             path = ''/x'', query = None, fragment = None\<rparr>"
  have p: "parse_uri ''https://example.com:8443/a/b?x=1#top'' = Some ?x" by (simp add: uri_eval)
  have h: "uri_hostname ?x \<noteq> []" by (simp add: uri_hostname_def)
  have b: "build ?x = ''https://example.com:8443/a/b?x=1#top''" by (simp add: build_def)
  have r: "resolve ''https://portal.vacd.biz'' ''voice'' ''calls'' = Some ''https://portal.vacd.biz/voice/calls''"
    by (simp add: uri_eval)
  have py: "parse_uri ''https://portal.vacd.biz/voice/calls'' = Some ?y" by (simp add: uri_eval)
  have hy: "uri_hostname ?y \<noteq> []" by (simp add: uri_hostname_def)
  have wz: "wf_uri ?z" by (simp add: wf_uri_def path_char_def unreserved_def is_alpha_def is_digit_def)
  have hz: "hostname ?z \<noteq> None" by simp
  have bz: "build ?z = ''//cdn.example.com/x''" by (simp add: build_def)
  note th = absolute_url_resolution [where u = "''https://example.com:8443/a/b?x=1#top''" and x = ?x
      and srv = "''https://portal.vacd.biz''" and pfx = "''voice''" and v = "''calls''"
      and r = "''https://portal.vacd.biz/voice/calls''" and y = ?y and z = ?z]
  from th p h have "resolve ''https://portal.vacd.biz'' ''voice'' ''https://example.com:8443/a/b?x=1#top''
     = Some (build ?x)" by blast
  moreover from th r py hy
  have "resolve ''https://portal.vacd.biz'' ''voice'' ''https://portal.vacd.biz/voice/calls''
     = Some ''https://portal.vacd.biz/voice/calls''" by blast
  moreover from th wz hz
  have "resolve ''https://portal.vacd.biz'' ''voice'' (build ?z) = Some (build ?z)" by blast
  ultimately show ?thesis using b bz by simp
qed

text \<open>
  Claim C6 as stated fails: a URL with a hostname is not always returned unchanged.
  \<^verbatim>\<open>https://example.com\<close> comes back with the path \<^verbatim>\<open>/\<close>, and
  \<^verbatim>\<open>https://example.com/a?\<close> without its empty query.
\<close>

theorem absolute_url_counterexample:
  "map_option uri_hostname (parse_uri ''https://example.com'') = Some ''example.com''
   \<and> resolve SERVER ''voice'' ''https://example.com'' = Some ''https://example.com/''
   \<and> resolve SERVER ''voice'' ''https://example.com'' \<noteq> Some ''https://example.com''
   \<and> map_option uri_hostname (parse_uri ''https://example.com/a?'') = Some ''example.com''
   \<and> resolve SERVER ''voice'' ''https://example.com/a?'' = Some ''https://example.com/a''
   \<and> resolve SERVER ''voice'' ''https://example.com/a?'' \<noteq> Some ''https://example.com/a?''"
  by (simp add: uri_eval)

section \<open>Further properties\<close>

text \<open>The server mode is fixed by the constructor: Legacy exactly for the two legacy
  servers, Modern for every other server and for the default.\<close>

theorem server_mode:
  "isLegacy (new_client cid secret srv rcsrv pfx ver)
     = (case srv of None \<Rightarrow> False | Some s \<Rightarrow> s \<in> set LEGACY_SERVERS)"
  by (simp add: new_client_def isLegacyServer_def SERVER_def LEGACY_SERVERS_def Let_def
      split: option.splits)

text \<open>A relative URL that does not start with the API prefix is joined to the server
  after the prefix.\<close>

lemma resolve_unprefixed:
  assumes "parse_uri u = Some x" and "uri_hostname x = []"
    and "\<not> prefix pfx u" and "\<not> prefix (CHR ''/'' # pfx) u"
  shows "resolve srv pfx u =
           (case parse_uri pfx of
              None \<Rightarrow> None
            | Some a \<Rightarrow>
               (case joinPaths a x of
                  None \<Rightarrow> None
                | Some p \<Rightarrow> map_option build (parseUrl srv p)))"
  using assms by (simp add: resolve_def)

text \<open>Header precedence in \<^verbatim>\<open>_patchHeaders\<close>: a header of the caller wins, then the two
  user agent headers, then the auth header.\<close>

lemma map_of_assign:
  "map_of (assign ps qs) k = (case map_of (rev qs) k of None \<Rightarrow> map_of ps k | Some v \<Rightarrow> Some v)"
proof (induction qs arbitrary: ps)
  case Nil
  then show ?case by simp
next
  case (Cons kv qs)
  obtain k' v' where kv: "kv = (k', v')" by (cases kv)
  show ?case using Cons [of "set_prop ps k' v'"] kv
    by (auto simp add: map_of_set_prop map_of_append split: option.splits)
qed

lemma authHeaders_total: "\<exists>a. authHeaders c w = Inr a"
  by (cases "truthy (token_store w)")
     (auto simp add: authHeaders_def legacyHeader_def bearerAuthorizationHeader_def get_prop_truthy)

theorem header_precedence:
  assumes "authHeaders c w = Inr a"
    and "ua = JStr (''ringcentral-engage-voice-js/v'' @ to_string (version c))"
  shows "\<exists>r. patchHeaders c w hs = Inr r
     \<and> map_of r k =
         (case map_of (rev hs) k of
            Some v \<Rightarrow> Some v
          | None \<Rightarrow> if k = ''RC-User-Agent'' \<or> k = ''X-User-Agent'' then Some ua
                    else map_of (rev a) k)"
  using assms
  by (auto simp add: patchHeaders_def Let_def map_of_assign map_of_set_prop split: option.splits)

theorem header_precedence_witness:
  "\<exists>r. patchHeaders (new_client JUndefined JUndefined None None None (JStr ''1.2.3''))
          \<lparr>token_store = JObj 1 [(''accessToken'', JStr ''xyz'')], emitted = [], sent = [],
           rc_session = JUndefined, next_ref = 2\<rparr>
          [(''Accept'', JStr ''text/csv''), (''Authorization'', JStr ''Basic abc'')] = Inr r
     \<and> map_of r ''Authorization'' = Some (JStr ''Basic abc'')"
proof -
  let ?c = "new_client JUndefined JUndefined None None None (JStr ''1.2.3'')"
  let ?w = "\<lparr>token_store = JObj 1 [(''accessToken'', JStr ''xyz'')], emitted = [], sent = [],
           rc_session = JUndefined, next_ref = 2\<rparr>"
  have a: "authHeaders ?c ?w = Inr [(''Authorization'', JStr ''Bearer xyz'')]"
    by (simp add: authHeaders_def new_client_def isLegacyServer_def SERVER_def LEGACY_SERVERS_def
        bearerAuthorizationHeader_def lookup_def Let_def)
  from header_precedence [OF a refl, where k = "''Authorization''"
      and hs = "[(''Accept'', JStr ''text/csv''), (''Authorization'', JStr ''Basic abc'')]"]
  show ?thesis by simp
qed

text \<open>
  The modern path of \<^verbatim>\<open>authorize\<close>: a failed login of the identity platform is the
  result and nothing is sent; after a login exactly one request is sent, the exchange of
  the session's access token, and the response body becomes the stored bundle.
\<close>

theorem modern_authorize:
  assumes "\<not> isLegacy c"
    and "rq = \<lparr>meth = ''post'',
               url = server c @ ''/api/auth/login/rc/accesstoken?includeRefresh=true'',
               body = JStr (''rcAccessToken='' @ session_access_token s @ ''&rcTokenType=Bearer''),
               headers = form_headers\<rparr>"
  shows "(rc_login co args (rc_session w) = Inl t \<longrightarrow> authorize c co args w = (Inl t, w))
     \<and> (rc_login co args (rc_session w) = Inr s \<longrightarrow>
          sent (snd (authorize c co args w)) = sent w @ [rq])
     \<and> (rc_login co args (rc_session w) = Inr s \<and> transport co (sent w) rq = Inr res
          \<and> get_prop res ''data'' = Inr r \<longrightarrow>
          fst (authorize c co args w) = Inr JUndefined
          \<and> token_store (snd (authorize c co args w)) = r)"
proof -
  have a: "authorize c co args w = (Inl t, w)" if "rc_login co args (rc_session w) = Inl t"
    using that assms(1) by (simp add: authorize_def)
  have g: "authorize c co args w = getToken c co JUndefined (w\<lparr>rc_session := s\<rparr>)"
    if "rc_login co args (rc_session w) = Inr s"
    using that assms(1) by (simp add: authorize_def)
  have b: "sent (snd (authorize c co args w)) = sent w @ [rq]"
    if "rc_login co args (rc_session w) = Inr s"
    using g [OF that] getToken_without_refresh_token [of JUndefined c co "w\<lparr>rc_session := s\<rparr>"] assms(2)
    by simp
  have d: "fst (authorize c co args w) = Inr JUndefined
          \<and> token_store (snd (authorize c co args w)) = r"
    if l: "rc_login co args (rc_session w) = Inr s" and t: "transport co (sent w) rq = Inr res"
      and dt: "get_prop res ''data'' = Inr r"
  proof (cases "truthy s")
    case True
    then obtain at where at: "get_prop s ''access_token'' = Inr at" by (cases s) simp_all
    have rq': "rq = \<lparr>meth = ''post'',
               url = server c @ ''/api/auth/login/rc/accesstoken?includeRefresh=true'',
               body = JStr (''rcAccessToken='' @ to_string (if truthy at then at else JStr [])
                            @ ''&rcTokenType=Bearer''),
               headers = form_headers\<rparr>"
      using assms(2) at by (simp add: session_access_token_def)
    have ax: "axios_request co rq (w\<lparr>rc_session := s\<rparr>)
        = (Inr res, w\<lparr>rc_session := s, sent := sent w @ [rq]\<rparr>)"
      using t axios_request_resolved [of co "w\<lparr>rc_session := s\<rparr>" rq res] by simp
    show ?thesis
      unfolding g [OF l] using True at ax dt rq'
      by (simp add: getToken_def Let_def)
  next
    case False
    then have sa: "session_access_token s = []"
      by (cases s) (simp_all add: session_access_token_def)
    let ?w0 = "w\<lparr>rc_session := s, next_ref := Suc (next_ref w)\<rparr>"
    have rq': "rq = \<lparr>meth = ''post'',
               url = server c @ ''/api/auth/login/rc/accesstoken?includeRefresh=true'',
               body = JStr (''rcAccessToken='' @ ''&rcTokenType=Bearer''),
               headers = form_headers\<rparr>"
      using assms(2) sa by simp
    have ax: "axios_request co rq ?w0 = (Inr res, ?w0\<lparr>sent := sent w @ [rq]\<rparr>)"
      using t axios_request_resolved [of co ?w0 rq res] by simp
    show ?thesis
      unfolding g [OF l] using False ax dt rq'
      by (simp add: getToken_def Let_def lookup_def)
  qed
  from a b d show ?thesis by blast
qed

theorem modern_authorize_witness:
  "sent (snd (authorize (new_client JUndefined JUndefined None None None JUndefined)
           \<lparr>transport = (\<lambda>h r. Inr (JObj 5 [(''data'', JObj 6 [(''accessToken'', JStr ''ev'')])])),
            rc_login = (\<lambda>a s. Inr (JObj 3 [(''access_token'', JStr ''rc'')]))\<rparr>
           [JObj 1 [(''username'', JStr ''u''), (''password'', JStr ''p'')]]
           \<lparr>token_store = JUndefined, emitted = [], sent = [], rc_session = JUndefined, next_ref = 2\<rparr>))
     = [\<lparr>meth = ''post'',
         url = ''https://engage.ringcentral.com/api/auth/login/rc/accesstoken?includeRefresh=true'',
         body = JStr ''rcAccessToken=rc&rcTokenType=Bearer'', headers = form_headers\<rparr>]
   \<and> token_store (snd (authorize (new_client JUndefined JUndefined None None None JUndefined)
           \<lparr>transport = (\<lambda>h r. Inr (JObj 5 [(''data'', JObj 6 [(''accessToken'', JStr ''ev'')])])),
            rc_login = (\<lambda>a s. Inr (JObj 3 [(''access_token'', JStr ''rc'')]))\<rparr>
           [JObj 1 [(''username'', JStr ''u''), (''password'', JStr ''p'')]]
           \<lparr>token_store = JUndefined, emitted = [], sent = [], rc_session = JUndefined, next_ref = 2\<rparr>))
     = JObj 6 [(''accessToken'', JStr ''ev'')]
   \<and> authorize (new_client JUndefined JUndefined None None None JUndefined)
           \<lparr>transport = (\<lambda>h r. Inr (JObj 5 [])), rc_login = (\<lambda>a s. Inl (Thrown (JStr ''denied'')))\<rparr>
           []
           \<lparr>token_store = JUndefined, emitted = [], sent = [], rc_session = JUndefined, next_ref = 2\<rparr>
     = (Inl (Thrown (JStr ''denied'')),
        \<lparr>token_store = JUndefined, emitted = [], sent = [], rc_session = JUndefined, next_ref = 2\<rparr>)"
proof -
  let ?c = "new_client JUndefined JUndefined None None None JUndefined"
  let ?res = "JObj 5 [(''data'', JObj 6 [(''accessToken'', JStr ''ev'')])]"
  let ?s = "JObj 3 [(''access_token'', JStr ''rc'')]"
  let ?ok = "\<lparr>transport = (\<lambda>h r. Inr ?res), rc_login = (\<lambda>a s. Inr ?s)\<rparr>"
  let ?no = "\<lparr>transport = (\<lambda>h r. Inr (JObj 5 [])), rc_login = (\<lambda>a s. Inl (Thrown (JStr ''denied'')))\<rparr>"
  let ?args = "[JObj 1 [(''username'', JStr ''u''), (''password'', JStr ''p'')]]"
  let ?w = "\<lparr>token_store = JUndefined, emitted = [], sent = [], rc_session = JUndefined, next_ref = 2\<rparr>"
  let ?rq = "\<lparr>meth = ''post'',
         url = ''https://engage.ringcentral.com/api/auth/login/rc/accesstoken?includeRefresh=true'',
         body = JStr ''rcAccessToken=rc&rcTokenType=Bearer'', headers = form_headers\<rparr>"
  have m: "\<not> isLegacy ?c"
    by (simp add: new_client_def isLegacyServer_def SERVER_def LEGACY_SERVERS_def Let_def)
  have q: "?rq = \<lparr>meth = ''post'',
               url = server ?c @ ''/api/auth/login/rc/accesstoken?includeRefresh=true'',
               body = JStr (''rcAccessToken='' @ session_access_token ?s @ ''&rcTokenType=Bearer''),
               headers = form_headers\<rparr>"
    by (simp add: new_client_def SERVER_def Let_def session_access_token_def lookup_def)
  note th = modern_authorize [OF m q]
  from th [where co = ?ok and args = ?args and w = ?w and res = ?res
      and r = "JObj 6 [(''accessToken'', JStr ''ev'')]"]
  have a: "sent (snd (authorize ?c ?ok ?args ?w)) = [?rq]
     \<and> token_store (snd (authorize ?c ?ok ?args ?w)) = JObj 6 [(''accessToken'', JStr ''ev'')]"
    by (simp add: lookup_def)
  from th [where co = ?no and args = "[]" and w = ?w and t = "Thrown (JStr ''denied'')"]
  have b: "authorize ?c ?no [] ?w = (Inl (Thrown (JStr ''denied'')), ?w)"
    by simp
  from a b show ?thesis by simp
qed

text \<open>
  \<^verbatim>\<open>request\<close> hands the transport exactly one request, the caller's configuration with
  the resolved URL and the patched headers, and leaves the token store and the
  notifications alone. The example is the call of the repository's own test,
  \<^verbatim>\<open>ev.get('/api/v1/admin/accounts')\<close>, on a legacy client with the default prefix.
\<close>

lemma patchHeaders_total: "\<exists>hs'. patchHeaders c w hs = Inr hs'"
  using authHeaders_total [of c w] by (auto simp add: patchHeaders_def Let_def)

theorem request_dispatch:
  assumes "resolve (server c) (apiPrefix c) (url cfg) = Some u"
  shows "\<exists>hs' res w'. patchHeaders c w (headers cfg) = Inr hs'
     \<and> request c co cfg w = Some (res, w')
     \<and> sent w' = sent w @ [cfg\<lparr>url := u, headers := hs'\<rparr>]
     \<and> token_store w' = token_store w \<and> emitted w' = emitted w"
proof -
  from patchHeaders_total obtain hs' where h: "patchHeaders c w (headers cfg) = Inr hs'" by blast
  let ?cfg = "cfg\<lparr>url := u, headers := hs'\<rparr>"
  have r: "request c co cfg w = Some (axios_request co ?cfg w)"
    using assms h by (simp add: request_def)
  have f: "token_store (snd (axios_request co ?cfg w)) = token_store w"
       "emitted (snd (axios_request co ?cfg w)) = emitted w"
    by (simp_all add: axios_request_def Let_def split: sum.splits)
  show ?thesis
    using h r f sent_axios_request [of co ?cfg w]
    by (cases "axios_request co ?cfg w") auto
qed

theorem request_dispatch_witness:
  "map_option (sent \<circ> snd)
     (get (new_client JUndefined JUndefined (Some ''https://portal.vacd.biz'') None None (JStr ''1.0''))
        \<lparr>transport = (\<lambda>h r. Inr (JObj 5 [(''data'', JObj 6 [])])), rc_login = (\<lambda>a s. Inr s)\<rparr>
        ''/api/v1/admin/accounts'' no_config
        \<lparr>token_store = JObj 1 [(''apiToken'', JStr ''abc'')], emitted = [], sent = [],
         rc_session = JUndefined, next_ref = 2\<rparr>)
   = Some [\<lparr>meth = ''get'', url = ''https://portal.vacd.biz/voice/api/v1/admin/accounts'',
            body = JUndefined,
            headers = [(''X-Auth-Token'', JStr ''abc''),
                       (''X-User-Agent'', JStr ''ringcentral-engage-voice-js/v1.0''),
                       (''RC-User-Agent'', JStr ''ringcentral-engage-voice-js/v1.0'')]\<rparr>]"
proof -
  let ?c = "new_client JUndefined JUndefined (Some ''https://portal.vacd.biz'') None None (JStr ''1.0'')"
  let ?co = "\<lparr>transport = (\<lambda>h r. Inr (JObj 5 [(''data'', JObj 6 [])])), rc_login = (\<lambda>a s. Inr s)\<rparr>"
  let ?w = "\<lparr>token_store = JObj 1 [(''apiToken'', JStr ''abc'')], emitted = [], sent = [],
         rc_session = JUndefined, next_ref = 2\<rparr>"
  let ?cfg = "no_config\<lparr>meth := ''get'', url := ''/api/v1/admin/accounts''\<rparr>"
  have c: "server ?c = ''https://portal.vacd.biz''" "apiPrefix ?c = ''voice''" "isLegacy ?c"
      "version ?c = JStr ''1.0''"
    by (simp_all add: new_client_def isLegacyServer_def LEGACY_SERVERS_def Let_def)
  have r: "resolve (server ?c) (apiPrefix ?c) (url ?cfg)
      = Some ''https://portal.vacd.biz/voice/api/v1/admin/accounts''"
    unfolding c by (simp add: no_config_def uri_eval)
  have p: "patchHeaders ?c ?w (headers ?cfg)
      = Inr [(''X-Auth-Token'', JStr ''abc''),
             (''X-User-Agent'', JStr ''ringcentral-engage-voice-js/v1.0''),
             (''RC-User-Agent'', JStr ''ringcentral-engage-voice-js/v1.0'')]"
    by (simp add: patchHeaders_def authHeaders_def legacyHeader_def c no_config_def lookup_def Let_def)
  from request_dispatch [OF r, of ?w ?co] p
  show ?thesis by (auto simp add: get_def no_config_def)
qed

end
